theory Spec2Isabelle
  imports Complex_Main
begin

section \<open>Qt geometry used by the selector\<close>

text \<open>
  The overlays of SwiftShot (overlay.py, window_picker.py) compute with PyQt5's
  \<open>QPoint\<close>, \<open>QRect\<close> and \<open>QRectF\<close>. These classes belong to Qt 5, not to the
  repository; they are modelled here with the representation and the arithmetic
  of Qt 5: a \<open>QRect\<close> stores its two corners \<open>x1, y1, x2, y2\<close> inclusively, so
  that \<open>width = x2 - x1 + 1\<close>. Pixel coordinates are far from the limits of a
  32-bit integer, so they are mathematical integers. A \<open>QRectF\<close> stores
  \<open>x, y, w, h\<close>; its coordinates are modelled as real numbers.
\<close>

record QPoint =
  px :: int
  py :: int

record QRect =
  rx1 :: int
  ry1 :: int
  rx2 :: int
  ry2 :: int

text \<open>\<open>QRect()\<close>: the null rectangle, corners (0,0) and (-1,-1).\<close>

definition QRect_null :: QRect where
  "QRect_null = \<lparr>rx1 = 0, ry1 = 0, rx2 = -1, ry2 = -1\<rparr>"

text \<open>\<open>QRect(x, y, w, h)\<close>.\<close>

definition QRect_xywh :: "int \<Rightarrow> int \<Rightarrow> int \<Rightarrow> int \<Rightarrow> QRect" where
  "QRect_xywh x y w h = \<lparr>rx1 = x, ry1 = y, rx2 = x + w - 1, ry2 = y + h - 1\<rparr>"

text \<open>\<open>QRect(topLeft, bottomRight)\<close>.\<close>

definition QRect_pts :: "QPoint \<Rightarrow> QPoint \<Rightarrow> QRect" where
  "QRect_pts p q = \<lparr>rx1 = px p, ry1 = py p, rx2 = px q, ry2 = py q\<rparr>"

definition rect_x :: "QRect \<Rightarrow> int" where
  "rect_x r = rx1 r"

definition rect_y :: "QRect \<Rightarrow> int" where
  "rect_y r = ry1 r"

definition rect_right :: "QRect \<Rightarrow> int" where
  "rect_right r = rx2 r"

definition rect_bottom :: "QRect \<Rightarrow> int" where
  "rect_bottom r = ry2 r"

definition width :: "QRect \<Rightarrow> int" where
  "width r = rx2 r - rx1 r + 1"

definition height :: "QRect \<Rightarrow> int" where
  "height r = ry2 r - ry1 r + 1"

definition isEmpty :: "QRect \<Rightarrow> bool" where
  "isEmpty r \<longleftrightarrow> rx1 r > rx2 r \<or> ry1 r > ry2 r"

definition isNull :: "QRect \<Rightarrow> bool" where
  "isNull r \<longleftrightarrow> rx2 r = rx1 r - 1 \<and> ry2 r = ry1 r - 1"

text \<open>\<open>QRect::normalized()\<close> of Qt 5: corners are swapped on an axis whose
  second coordinate lies more than one pixel before the first.\<close>

definition normalized :: "QRect \<Rightarrow> QRect" where
  "normalized r =
     \<lparr>rx1 = (if rx2 r < rx1 r - 1 then rx2 r else rx1 r),
      ry1 = (if ry2 r < ry1 r - 1 then ry2 r else ry1 r),
      rx2 = (if rx2 r < rx1 r - 1 then rx1 r else rx2 r),
      ry2 = (if ry2 r < ry1 r - 1 then ry1 r else ry2 r)\<rparr>"

text \<open>\<open>QRect::contains(x, y)\<close> of Qt 5 (edges included).\<close>

definition contains :: "QRect \<Rightarrow> int \<Rightarrow> int \<Rightarrow> bool" where
  "contains r x y =
     (let l = (if rx2 r < rx1 r - 1 then rx2 r else rx1 r);
          r' = (if rx2 r < rx1 r - 1 then rx1 r else rx2 r);
          t = (if ry2 r < ry1 r - 1 then ry2 r else ry1 r);
          b = (if ry2 r < ry1 r - 1 then ry1 r else ry2 r)
      in \<not> (x < l \<or> x > r') \<and> \<not> (y < t \<or> y > b))"

text \<open>\<open>QRect::united\<close> of Qt 5 (the bounding rectangle of both).\<close>

definition united :: "QRect \<Rightarrow> QRect \<Rightarrow> QRect" where
  "united a b =
     (if isNull a then b
      else if isNull b then a
      else
        let l1 = (if rx2 a - rx1 a + 1 < 0 then rx2 a else rx1 a);
            r1 = (if rx2 a - rx1 a + 1 < 0 then rx1 a else rx2 a);
            l2 = (if rx2 b - rx1 b + 1 < 0 then rx2 b else rx1 b);
            r2 = (if rx2 b - rx1 b + 1 < 0 then rx1 b else rx2 b);
            t1 = (if ry2 a - ry1 a + 1 < 0 then ry2 a else ry1 a);
            b1 = (if ry2 a - ry1 a + 1 < 0 then ry1 a else ry2 a);
            t2 = (if ry2 b - ry1 b + 1 < 0 then ry2 b else ry1 b);
            b2 = (if ry2 b - ry1 b + 1 < 0 then ry1 b else ry2 b)
        in \<lparr>rx1 = min l1 l2, ry1 = min t1 t2, rx2 = max r1 r2, ry2 = max b1 b2\<rparr>)"

record QRectF =
  fx :: real
  fy :: real
  fw :: real
  fh :: real

text \<open>\<open>QRectF()\<close> and \<open>QRectF(x, y, w, h)\<close>.\<close>

definition QRectF_null :: QRectF where
  "QRectF_null = \<lparr>fx = 0, fy = 0, fw = 0, fh = 0\<rparr>"

definition QRectF_xywh :: "real \<Rightarrow> real \<Rightarrow> real \<Rightarrow> real \<Rightarrow> QRectF" where
  "QRectF_xywh x y w h = \<lparr>fx = x, fy = y, fw = w, fh = h\<rparr>"

text \<open>\<open>QRectF(QRect)\<close>: same origin, same width and height.\<close>

definition QRectF_of :: "QRect \<Rightarrow> QRectF" where
  "QRectF_of r = QRectF_xywh (of_int (rect_x r)) (of_int (rect_y r))
                             (of_int (width r)) (of_int (height r))"

definition isEmptyF :: "QRectF \<Rightarrow> bool" where
  "isEmptyF r \<longleftrightarrow> fw r \<le> 0 \<or> fh r \<le> 0"


section \<open>Rectangle animator (window\_picker.py, class RectAnimator)\<close>

text \<open>
  The animator reads the clock with \<open>time.monotonic()\<close>; the reading is the
  parameter \<open>now\<close> of the operations that use it. Python floats are modelled as
  real numbers.
\<close>

record RectAnimator =
  duration :: real
  start_rect :: QRectF
  end_rect :: QRectF
  current_rect :: QRectF
  start_time :: real
  active :: bool

definition RectAnimator_init :: "real \<Rightarrow> RectAnimator" where
  "RectAnimator_init duration_ms =
     \<lparr>duration = duration_ms / 1000,
      start_rect = QRectF_null,
      end_rect = QRectF_null,
      current_rect = QRectF_null,
      start_time = 0,
      active = False\<rparr>"

definition animate_to :: "RectAnimator \<Rightarrow> QRectF \<Rightarrow> real \<Rightarrow> RectAnimator" where
  "animate_to a target now =
     (if isEmptyF (current_rect a) then a\<lparr>current_rect := target, end_rect := target\<rparr>
      else if target = end_rect a then a
      else a\<lparr>start_rect := current_rect a, end_rect := target,
              start_time := now, active := True\<rparr>)"

definition animate_from_cursor :: "RectAnimator \<Rightarrow> QPoint \<Rightarrow> QRectF \<Rightarrow> real \<Rightarrow> RectAnimator" where
  "animate_from_cursor a cursor_pos target now =
     a\<lparr>start_rect := QRectF_xywh (of_int (px cursor_pos)) (of_int (py cursor_pos)) 0 0,
       end_rect := target,
       current_rect := QRectF_xywh (of_int (px cursor_pos)) (of_int (py cursor_pos)) 0 0,
       start_time := now,
       active := True\<rparr>"

definition quintic_ease_out :: "real \<Rightarrow> real" where
  "quintic_ease_out t = (let t' = t - 1 in t' * t' * t' * t' * t' + 1)"

text \<open>
  \<open>tick\<close> returns the flag "repaint needed" and the new animator. The division
  \<open>elapsed / self.duration\<close> raises \<open>ZeroDivisionError\<close> for a zero duration:
  that is the result \<open>None\<close>.
\<close>

definition tick :: "RectAnimator \<Rightarrow> real \<Rightarrow> (bool \<times> RectAnimator) option" where
  "tick a now =
     (if \<not> active a then Some (False, a)
      else if duration a = 0 then None
      else
        let elapsed = now - start_time a;
            t = min 1 (elapsed / duration a);
            e = quintic_ease_out t;
            x = fx (start_rect a) + (fx (end_rect a) - fx (start_rect a)) * e;
            y = fy (start_rect a) + (fy (end_rect a) - fy (start_rect a)) * e;
            w = fw (start_rect a) + (fw (end_rect a) - fw (start_rect a)) * e;
            h = fh (start_rect a) + (fh (end_rect a) - fh (start_rect a)) * e;
            a1 = a\<lparr>current_rect := QRectF_xywh x y w h\<rparr>;
            a2 = (if t \<ge> 1 then a1\<lparr>active := False, current_rect := end_rect a\<rparr> else a1)
        in Some (True, a2))"

text \<open>
  The interpolation as the specification words it: the elapsed fraction clamped
  to [0,1], the eased progress \<open>1 - (1 - t)^5\<close>, and each of x, y, width and
  height interpolated linearly with that progress.
\<close>

definition spec_clamped_fraction :: "real \<Rightarrow> real \<Rightarrow> real" where
  "spec_clamped_fraction elapsed dur = max 0 (min 1 (elapsed / dur))"

definition spec_eased :: "real \<Rightarrow> real" where
  "spec_eased t = 1 - (1 - t) ^ 5"

definition spec_lerp_rect :: "QRectF \<Rightarrow> QRectF \<Rightarrow> real \<Rightarrow> QRectF" where
  "spec_lerp_rect s e p =
     \<lparr>fx = fx s + (fx e - fx s) * p,
      fy = fy s + (fy e - fy s) * p,
      fw = fw s + (fw e - fw s) * p,
      fh = fh s + (fh e - fh s) * p\<rparr>"

text \<open>"Strictly between on every field".\<close>

definition strictly_between :: "QRectF \<Rightarrow> QRectF \<Rightarrow> QRectF \<Rightarrow> bool" where
  "strictly_between s r e \<longleftrightarrow>
     fx s < fx r \<and> fx r < fx e \<and> fy s < fy r \<and> fy r < fy e \<and>
     fw s < fw r \<and> fw r < fw e \<and> fh s < fh r \<and> fh r < fh e"


section \<open>The host window system as seen by the overlays\<close>

text \<open>
  Both overlays ask Windows for the visible windows through \<open>ctypes\<close>
  (\<open>EnumWindows\<close>, \<open>IsWindowVisible\<close>, \<open>GetWindowTextLengthW\<close>,
  \<open>DwmGetWindowAttribute\<close>, \<open>GetWindowRect\<close>, \<open>GetWindow\<close>) and Qt for the
  screens. The answers of these calls are the fields of \<open>win_env\<close>; the model
  is the program on Windows (\<open>sys.platform == 'win32'\<close>), the only platform on
  which the enumeration code runs. A window handle is a number, 0 the null
  handle. \<open>child_chain\<close> is the sequence of handles that \<open>GetWindow(parent,
  GW_CHILD)\<close> followed by repeated \<open>GetWindow(child, GW_HWNDNEXT)\<close> returns.
\<close>

type_synonym hwnd = nat

type_synonym pixmap = nat

record RECT =
  left :: int
  top :: int
  right :: int
  bottom :: int

record win_env =
  screens :: "QRect list"
  enum_windows :: "hwnd list"
  is_visible :: "hwnd \<Rightarrow> bool"
  title_len :: "hwnd \<Rightarrow> int"
  dwm_frame_bounds :: "hwnd \<Rightarrow> RECT option"
  window_rect :: "hwnd \<Rightarrow> RECT option"
  child_chain :: "hwnd \<Rightarrow> hwnd list"

text \<open>
  The common idiom of both files: a zeroed \<open>RECT\<close>, filled by
  \<open>DwmGetWindowAttribute\<close> (extended frame bounds) or, when that call fails,
  by \<open>GetWindowRect\<close>.
\<close>

definition query_rect :: "win_env \<Rightarrow> hwnd \<Rightarrow> RECT" where
  "query_rect env h =
     (case dwm_frame_bounds env h of
        Some r \<Rightarrow> r
      | None \<Rightarrow> (case window_rect env h of
                   Some r \<Rightarrow> r
                 | None \<Rightarrow> \<lparr>left = 0, top = 0, right = 0, bottom = 0\<rparr>))"

text \<open>utils.py, \<open>virtual_geometry\<close>.\<close>

definition virtual_geometry :: "win_env \<Rightarrow> QRect" where
  "virtual_geometry env =
     (case screens env of
        [] \<Rightarrow> QRect_xywh 0 0 1920 1080
      | g # gs \<Rightarrow> foldl united g gs)"


section \<open>Events and effects of an overlay\<close>

datatype mouse_button = LeftButton | RightButton | OtherButton

datatype key =
    Key_Escape | Key_Space | Key_S | Key_C | Key_Z
  | Key_Return | Key_Enter | Key_PageDown | Key_PageUp
  | Key_Up | Key_Down | Key_Left | Key_Right | Key_Other

text \<open>
  What a handler does to the outside, in the order of the calls: \<open>self.hide()\<close>,
  \<open>self.update()\<close>, \<open>self._timer.stop()\<close>, \<open>QTimer.singleShot(ms, lambda:
  signal.emit(...))\<close>, a direct \<open>signal.emit(...)\<close>, the clipboard text (the
  colour whose hex string is copied), \<open>QCursor.setPos(x, y)\<close> and the call of
  the base class handler.
\<close>

datatype 'sig effect =
    Hide
  | Update
  | TimerStop
  | SingleShot nat 'sig
  | Emit 'sig
  | ClipboardSetColor "nat \<times> nat \<times> nat"
  | SetCursorPos int int
  | BaseKeyPress


text \<open>
  The order that the teardown of an overlay must keep: the timer is stopped and
  the surface hidden before the one deferred emission of the signal, which is
  the last effect and is delayed by tens of milliseconds; nothing is emitted
  directly.
\<close>

fun is_SingleShot :: "'sig effect \<Rightarrow> bool" where
  "is_SingleShot (SingleShot ms sig) = True"
| "is_SingleShot e = False"

fun is_Emit :: "'sig effect \<Rightarrow> bool" where
  "is_Emit (Emit sig) = True"
| "is_Emit e = False"

definition hides_then_defers :: "'sig effect list \<Rightarrow> 'sig \<Rightarrow> bool" where
  "hides_then_defers effs sig \<longleftrightarrow>
     (let before = takeWhile (\<lambda>e. \<not> is_SingleShot e) effs;
          rest = dropWhile (\<lambda>e. \<not> is_SingleShot e) effs
      in TimerStop \<in> set before \<and> Hide \<in> set before
       \<and> (case rest of
             SingleShot ms sig' # later \<Rightarrow> sig' = sig \<and> 10 \<le> ms \<and> ms < 100 \<and> later = []
           | _ \<Rightarrow> False)
       \<and> \<not> list_ex is_Emit effs)"


section \<open>Region selector (overlay.py, class RegionSelector)\<close>

datatype rs_signal = region_selected QRect | switch_to_window | cancelled

definition MODE_RECTANGLE :: string where
  "MODE_RECTANGLE = ''rectangle''"

definition MODE_FREEHAND :: string where
  "MODE_FREEHAND = ''freehand''"

definition SNAP_DISTANCE :: int where
  "SNAP_DISTANCE = 8"

text \<open>The fields that the event handlers read or write; colours and sizes of
  the painting code are left out.\<close>

record RegionSelector =
  screenshot :: pixmap
  mode :: string
  selecting :: bool
  start_pos :: QPoint
  end_pos :: QPoint
  current_pos :: QPoint
  freehand_points :: "QPoint list"
  snap_enabled :: bool
  snap_edges_h :: "int list"
  snap_edges_v :: "int list"
  snapped_x :: "int option"
  snapped_y :: "int option"
  current_color :: "nat \<times> nat \<times> nat"
  desktop_geo :: QRect

text \<open>\<open>sorted(edges)\<close> of a Python set: the distinct values in ascending order.\<close>

definition sorted_of_set :: "int list \<Rightarrow> int list" where
  "sorted_of_set xs = sort (remdups xs)"

text \<open>The callback of \<open>_detect_snap_edges\<close> on one window: the edges it adds
  to \<open>(edges_h, edges_v)\<close>.\<close>

definition snap_callback :: "win_env \<Rightarrow> QRect \<Rightarrow> hwnd \<Rightarrow> int list \<times> int list \<Rightarrow> int list \<times> int list" where
  "snap_callback env geo h acc =
     (if \<not> is_visible env h then acc
      else if title_len env h = 0 then acc
      else
        let rect = query_rect env h;
            x = left rect - rect_x geo;
            y = top rect - rect_y geo;
            w = right rect - left rect;
            h' = bottom rect - top rect
        in if w > 5 \<and> h' > 5
           then (fst acc @ [y, y + h'], snd acc @ [x, x + w])
           else acc)"

definition detect_snap_edges :: "win_env \<Rightarrow> RegionSelector \<Rightarrow> RegionSelector" where
  "detect_snap_edges env s =
     (let edges = fold (snap_callback env (desktop_geo s)) (enum_windows env) ([], [])
      in s\<lparr>snap_edges_v := sorted_of_set (snd edges),
           snap_edges_h := sorted_of_set (fst edges)\<rparr>)"

definition RegionSelector_init :: "win_env \<Rightarrow> pixmap \<Rightarrow> string \<Rightarrow> RegionSelector" where
  "RegionSelector_init env shot m =
     detect_snap_edges env
       \<lparr>screenshot = shot, mode = m, selecting = False,
        start_pos = \<lparr>px = 0, py = 0\<rparr>, end_pos = \<lparr>px = 0, py = 0\<rparr>,
        current_pos = \<lparr>px = 0, py = 0\<rparr>,
        freehand_points = [],
        snap_enabled = True, snap_edges_h = [], snap_edges_v = [],
        snapped_x = None, snapped_y = None,
        current_color = (0, 0, 0),
        desktop_geo = virtual_geometry env\<rparr>"

text \<open>The loop \<open>for edge in edges: if abs(c - edge) <= SNAP_DISTANCE: ...; break\<close>.\<close>

fun snap_scan :: "int \<Rightarrow> int list \<Rightarrow> int option" where
  "snap_scan c [] = None"
| "snap_scan c (edge # edges) =
     (if \<bar>c - edge\<bar> \<le> SNAP_DISTANCE then Some edge else snap_scan c edges)"

definition snap_point :: "RegionSelector \<Rightarrow> QPoint \<Rightarrow> RegionSelector \<times> QPoint" where
  "snap_point s pos =
     (if \<not> snap_enabled s then (s, pos)
      else
        let x = px pos; y = py pos;
            fx' = snap_scan x (snap_edges_v s);
            fy' = snap_scan y (snap_edges_h s);
            sx = (case fx' of Some edge_x \<Rightarrow> edge_x | None \<Rightarrow> x);
            sy = (case fy' of Some edge_y \<Rightarrow> edge_y | None \<Rightarrow> y)
        in (s\<lparr>snapped_x := fx', snapped_y := fy'\<rparr>, \<lparr>px = sx, py = sy\<rparr>))"

text \<open>
  \<open>QPainterPath.boundingRect().toAlignedRect()\<close> of the polyline through
  integer points: origin at the least coordinates, width and height the
  differences of the extreme coordinates.
\<close>

definition path_bounding :: "QPoint list \<Rightarrow> QRect" where
  "path_bounding pts =
     (let xs = map px pts; ys = map py pts;
          xmin = fold min (tl xs) (hd xs); xmax = fold max (tl xs) (hd xs);
          ymin = fold min (tl ys) (hd ys); ymax = fold max (tl ys) (hd ys)
      in QRect_xywh xmin ymin (xmax - xmin) (ymax - ymin))"

definition mousePressEvent :: "RegionSelector \<Rightarrow> mouse_button \<Rightarrow> QPoint \<Rightarrow> RegionSelector \<times> rs_signal effect list" where
  "mousePressEvent s button epos =
     (if button = LeftButton then
        let s1 = s\<lparr>selecting := True\<rparr>;
            (s2, pos) = (if mode s1 = MODE_RECTANGLE then snap_point s1 epos else (s1, epos));
            s3 = s2\<lparr>start_pos := pos, end_pos := pos\<rparr>;
            s4 = (if mode s3 = MODE_FREEHAND then s3\<lparr>freehand_points := [epos]\<rparr> else s3)
        in (s4, [Update])
      else if button = RightButton then (s, [Hide, SingleShot 50 cancelled])
      else (s, []))"

definition mouseMoveEvent :: "RegionSelector \<Rightarrow> QPoint \<Rightarrow> RegionSelector \<times> rs_signal effect list" where
  "mouseMoveEvent s epos =
     (let s1 = s\<lparr>current_pos := epos\<rparr>;
          s2 = (if selecting s1 then
                  let (s', pos) = (if mode s1 = MODE_RECTANGLE then snap_point s1 epos
                                   else (s1, epos));
                      s'' = s'\<lparr>end_pos := pos\<rparr>
                  in if mode s'' = MODE_FREEHAND
                     then s''\<lparr>freehand_points := freehand_points s'' @ [epos]\<rparr>
                     else s''
                else fst (snap_point s1 epos))
      in (s2, [Update]))"

definition mouseReleaseEvent :: "RegionSelector \<Rightarrow> mouse_button \<Rightarrow> QPoint \<Rightarrow> RegionSelector \<times> rs_signal effect list" where
  "mouseReleaseEvent s button epos =
     (if button = LeftButton \<and> selecting s then
        let s1 = s\<lparr>selecting := False\<rparr>;
            (s2, pos) = (if mode s1 = MODE_RECTANGLE then snap_point s1 epos else (s1, epos));
            s3 = s2\<lparr>end_pos := pos\<rparr>
        in if mode s3 = MODE_FREEHAND \<and> freehand_points s3 \<noteq> [] then
             let bounding = path_bounding (freehand_points s3)
             in if width bounding > 2 \<and> height bounding > 2
                then (s3, [Hide, SingleShot 50 (region_selected bounding)])
                else (s3, [Hide, SingleShot 50 cancelled])
           else
             let selection = normalized (QRect_pts (start_pos s3) (end_pos s3))
             in if width selection > 2 \<and> height selection > 2
                then (s3, [Hide, SingleShot 50 (region_selected selection)])
                else (s3, [Hide, SingleShot 50 cancelled])
      else (s, []))"

definition keyPressEvent :: "RegionSelector \<Rightarrow> key \<Rightarrow> RegionSelector \<times> rs_signal effect list" where
  "keyPressEvent s k =
     (if k = Key_Escape then (s, [Hide, SingleShot 50 cancelled])
      else if k = Key_Space then (s, [Hide, SingleShot 50 switch_to_window])
      else if k = Key_S then (s\<lparr>snap_enabled := \<not> snap_enabled s\<rparr>, [Update])
      else if k = Key_C \<and> \<not> selecting s then (s, [ClipboardSetColor (current_color s)])
      else (s, [BaseKeyPress]))"

text \<open>
  The snap query as the specification words it: the first stored value of the
  axis within the tolerance of 8 pixels, or none.
\<close>

definition spec_query :: "int list \<Rightarrow> int \<Rightarrow> int option" where
  "spec_query axis c = find (\<lambda>e. \<bar>c - e\<bar> \<le> 8) axis"


text \<open>The point that \<open>_snap_point\<close> returns.\<close>

definition snapped :: "RegionSelector \<Rightarrow> QPoint \<Rightarrow> QPoint" where
  "snapped s pos = snd (snap_point s pos)"

text \<open>
  A drag: the primary button goes down at \<open>p\<close>, the pointer moves through the
  points \<open>ms\<close>, and the button is released at \<open>q\<close>. \<open>drag\<close> returns the
  selector after the release and the effects of the release.
\<close>

definition run_moves :: "RegionSelector \<Rightarrow> QPoint list \<Rightarrow> RegionSelector" where
  "run_moves s ms = fold (\<lambda>m s'. fst (mouseMoveEvent s' m)) ms s"

definition drag :: "RegionSelector \<Rightarrow> QPoint \<Rightarrow> QPoint list \<Rightarrow> QPoint \<Rightarrow> RegionSelector \<times> rs_signal effect list" where
  "drag s p ms q =
     mouseReleaseEvent (run_moves (fst (mousePressEvent s LeftButton p)) ms) LeftButton q"


text \<open>Two selectors with the same mode and the same snapping configuration.\<close>

definition same_snap :: "RegionSelector \<Rightarrow> RegionSelector \<Rightarrow> bool" where
  "same_snap s' s \<longleftrightarrow> mode s' = mode s \<and> snap_enabled s' = snap_enabled s \<and>
     snap_edges_h s' = snap_edges_h s \<and> snap_edges_v s' = snap_edges_v s"


section \<open>Window picker (window\_picker.py, class WindowPicker)\<close>

datatype wp_signal = element_selected QRect | switch_to_region | wp_cancelled

text \<open>
  The fields that the handlers read or write. \<open>top_windows\<close> and the lists of
  the cache keep the order of enumeration; \<open>parent_stack\<close> grows at its end.
  \<open>timer_running\<close> is the state of \<open>self._timer\<close>. \<open>enum_log\<close> is not a field of
  the class: it records, in order, every parent whose children were enumerated
  through \<open>GetWindow\<close>, so that calls of the window system can be counted.
\<close>

record WindowPicker =
  wp_screenshot :: pixmap
  wp_current_pos :: QPoint
  top_windows :: "(hwnd \<times> QRect) list"
  child_cache :: "hwnd \<rightharpoonup> (hwnd \<times> QRect) list"
  parent_stack :: "hwnd list"
  current_hwnd :: hwnd
  wp_current_rect :: QRect
  animator :: RectAnimator
  first_highlight :: bool
  show_magnifier :: bool
  own_hwnd :: hwnd
  desktop_offset :: QPoint
  wp_desktop_geo :: QRect
  timer_running :: bool
  enum_log :: "hwnd list"

definition WindowPicker_init :: "win_env \<Rightarrow> pixmap \<Rightarrow> WindowPicker" where
  "WindowPicker_init env shot =
     (let geo = virtual_geometry env
      in \<lparr>wp_screenshot = shot,
          wp_current_pos = \<lparr>px = 0, py = 0\<rparr>,
          top_windows = [],
          child_cache = Map.empty,
          parent_stack = [],
          current_hwnd = 0,
          wp_current_rect = QRect_null,
          animator = RectAnimator_init 700,
          first_highlight = True,
          show_magnifier = False,
          own_hwnd = 0,
          desktop_offset = \<lparr>px = rect_x geo, py = rect_y geo\<rparr>,
          wp_desktop_geo = geo,
          timer_running = True,
          enum_log = []\<rparr>)"

definition get_win_rect :: "win_env \<Rightarrow> hwnd \<Rightarrow> QRect" where
  "get_win_rect env h =
     (let rect = query_rect env h
      in QRect_xywh (left rect) (top rect) (right rect - left rect) (bottom rect - top rect))"

text \<open>The callback of \<open>_init_windows\<close> on one window of \<open>EnumWindows\<close>.\<close>

definition enum_cb :: "win_env \<Rightarrow> hwnd \<Rightarrow> hwnd \<Rightarrow> (hwnd \<times> QRect) list \<Rightarrow> (hwnd \<times> QRect) list" where
  "enum_cb env own h acc =
     (if h = own then acc
      else if \<not> is_visible env h then acc
      else if title_len env h = 0 then acc
      else let rect = get_win_rect env h
           in if width rect < 5 \<or> height rect < 5 then acc
              else acc @ [(h, rect)])"

definition to_display :: "WindowPicker \<Rightarrow> QRect \<Rightarrow> QRect" where
  "to_display s screen_rect =
     QRect_xywh (rect_x screen_rect - px (desktop_offset s))
                (rect_y screen_rect - py (desktop_offset s))
                (width screen_rect) (height screen_rect)"

text \<open>The loop \<open>while child: ...; child = GetWindow(child, GW_HWNDNEXT)\<close> over
  the chain of siblings; it ends at the first null handle.\<close>

fun walk_children :: "win_env \<Rightarrow> hwnd list \<Rightarrow> (hwnd \<times> QRect) list" where
  "walk_children env [] = []"
| "walk_children env (child # rest) =
     (if child = 0 then []
      else if is_visible env child then
        (let rect = get_win_rect env child
         in if width rect > 2 \<and> height rect > 2
            then (child, rect) # walk_children env rest
            else walk_children env rest)
      else walk_children env rest)"

definition enum_direct_children :: "win_env \<Rightarrow> WindowPicker \<Rightarrow> hwnd \<Rightarrow> WindowPicker \<times> (hwnd \<times> QRect) list" where
  "enum_direct_children env s parent_hwnd =
     (case child_cache s parent_hwnd of
        Some cached \<Rightarrow> (s, cached)
      | None \<Rightarrow>
          let children = walk_children env (child_chain env parent_hwnd)
          in (s\<lparr>child_cache := (child_cache s)(parent_hwnd \<mapsto> children),
                enum_log := enum_log s @ [parent_hwnd]\<rparr>, children))"

text \<open>The loop \<open>for hwnd, rect in candidates: if rect.contains(sx, sy): return
  hwnd, rect\<close>.\<close>

fun first_containing :: "(hwnd \<times> QRect) list \<Rightarrow> int \<Rightarrow> int \<Rightarrow> (hwnd \<times> QRect) option" where
  "first_containing [] sx sy = None"
| "first_containing ((h, rect) # rest) sx sy =
     (if contains rect sx sy then Some (h, rect) else first_containing rest sx sy)"

definition find_window_at :: "win_env \<Rightarrow> WindowPicker \<Rightarrow> int \<Rightarrow> int \<Rightarrow> WindowPicker \<times> hwnd \<times> QRect" where
  "find_window_at env s sx sy =
     (if parent_stack s = [] then
        (case first_containing (top_windows s) sx sy of
           Some (h, rect) \<Rightarrow> (s, h, rect)
         | None \<Rightarrow> (s, 0, QRect_null))
      else
        let parent = last (parent_stack s);
            (s', children) = enum_direct_children env s parent
        in case first_containing children sx sy of
             Some (h, rect) \<Rightarrow> (s', h, rect)
           | None \<Rightarrow> (s', parent, get_win_rect env parent))"

definition update_highlight :: "win_env \<Rightarrow> real \<Rightarrow> WindowPicker \<Rightarrow> WindowPicker" where
  "update_highlight env now s =
     (let screen_pos = \<lparr>px = px (wp_current_pos s) + px (desktop_offset s),
                        py = py (wp_current_pos s) + py (desktop_offset s)\<rparr>;
          (s1, h, screen_rect) = find_window_at env s (px screen_pos) (py screen_pos)
      in if h \<noteq> 0 \<and> width screen_rect > 0 then
           (let disp = to_display s1 screen_rect
            in if h \<noteq> current_hwnd s1 then
                 (let s2 = s1\<lparr>current_hwnd := h, wp_current_rect := screen_rect\<rparr>
                  in if first_highlight s2
                     then s2\<lparr>animator := animate_from_cursor (animator s2) (wp_current_pos s2)
                                            (QRectF_of disp) now,
                             first_highlight := False\<rparr>
                     else s2\<lparr>animator := animate_to (animator s2) (QRectF_of disp) now\<rparr>)
               else s1)
         else if h = 0 then s1\<lparr>current_hwnd := 0, wp_current_rect := QRect_null\<rparr>
         else s1)"

text \<open>\<open>_init_windows\<close>; \<open>own\<close> is \<open>int(self.winId())\<close> and \<open>cursor\<close> the reading of
  \<open>QCursor.pos()\<close>.\<close>

definition init_windows :: "win_env \<Rightarrow> real \<Rightarrow> hwnd \<Rightarrow> QPoint \<Rightarrow> WindowPicker \<Rightarrow> WindowPicker" where
  "init_windows env now own cursor s =
     (let s1 = s\<lparr>own_hwnd := own, top_windows := []\<rparr>;
          s2 = s1\<lparr>top_windows := fold (enum_cb env own) (enum_windows env) []\<rparr>;
          s3 = s2\<lparr>wp_current_pos := \<lparr>px = px cursor - px (desktop_offset s2),
                                        py = py cursor - py (desktop_offset s2)\<rparr>\<rparr>
      in update_highlight env now s3)"

definition page_down :: "win_env \<Rightarrow> real \<Rightarrow> WindowPicker \<Rightarrow> WindowPicker" where
  "page_down env now s =
     (if current_hwnd s = 0 then s
      else
        let (s1, children) = enum_direct_children env s (current_hwnd s)
        in if children \<noteq> [] then
             update_highlight env now
               (s1\<lparr>parent_stack := parent_stack s1 @ [current_hwnd s1],
                    current_hwnd := 0,
                    first_highlight := True\<rparr>)
           else s1)"

definition page_up :: "win_env \<Rightarrow> real \<Rightarrow> WindowPicker \<Rightarrow> WindowPicker" where
  "page_up env now s =
     (if parent_stack s = [] then s
      else
        let parent = last (parent_stack s);
            s1 = s\<lparr>parent_stack := butlast (parent_stack s)\<rparr>;
            s2 = s1\<lparr>child_cache := (child_cache s1)(parent := None)\<rparr>;
            s3 = s2\<lparr>current_hwnd := 0, first_highlight := True\<rparr>
        in update_highlight env now s3)"

definition nudge_cursor :: "win_env \<Rightarrow> real \<Rightarrow> QPoint \<Rightarrow> int \<Rightarrow> int \<Rightarrow> WindowPicker \<Rightarrow> WindowPicker \<times> wp_signal effect list" where
  "nudge_cursor env now cursor dx dy s =
     (let s1 = s\<lparr>wp_current_pos := \<lparr>px = px cursor + dx - px (desktop_offset s),
                                       py = py cursor + dy - py (desktop_offset s)\<rparr>\<rparr>
      in (update_highlight env now s1, [SetCursorPos (px cursor + dx) (py cursor + dy)]))"

definition on_tick :: "real \<Rightarrow> WindowPicker \<Rightarrow> (WindowPicker \<times> wp_signal effect list) option" where
  "on_tick now s =
     (case tick (animator s) now of
        None \<Rightarrow> None
      | Some (repaint, a') \<Rightarrow> Some (s\<lparr>animator := a'\<rparr>, if repaint then [Update] else []))"

definition wp_mouseMoveEvent :: "win_env \<Rightarrow> real \<Rightarrow> QPoint \<Rightarrow> WindowPicker \<Rightarrow> WindowPicker" where
  "wp_mouseMoveEvent env now epos s = update_highlight env now (s\<lparr>wp_current_pos := epos\<rparr>)"

definition wp_mousePressEvent :: "WindowPicker \<Rightarrow> mouse_button \<Rightarrow> WindowPicker \<times> wp_signal effect list" where
  "wp_mousePressEvent s button =
     (if button = LeftButton then
        (if \<not> isEmpty (wp_current_rect s) then
           (s\<lparr>timer_running := False\<rparr>,
            [TimerStop, Hide, SingleShot 50 (element_selected (to_display s (wp_current_rect s)))])
         else (s, []))
      else if button = RightButton then
        (s\<lparr>timer_running := False\<rparr>, [TimerStop, Hide, SingleShot 50 wp_cancelled])
      else (s, []))"

text \<open>\<open>ctrl\<close> is \<open>event.modifiers() & Qt.ControlModifier\<close>; \<open>cursor\<close> the
  reading of \<open>QCursor.pos()\<close> used by the arrow keys.\<close>

definition wp_keyPressEvent :: "win_env \<Rightarrow> real \<Rightarrow> QPoint \<Rightarrow> WindowPicker \<Rightarrow> key \<Rightarrow> bool \<Rightarrow> WindowPicker \<times> wp_signal effect list" where
  "wp_keyPressEvent env now cursor s k ctrl =
     (let step = (if ctrl then 10 else 1)
      in if k = Key_Escape then
           (s\<lparr>timer_running := False\<rparr>, [TimerStop, Hide, SingleShot 50 wp_cancelled])
         else if k = Key_Return \<or> k = Key_Enter then
           (if \<not> isEmpty (wp_current_rect s) then
              (s\<lparr>timer_running := False\<rparr>,
               [TimerStop, Hide,
                SingleShot 50 (element_selected (to_display s (wp_current_rect s)))])
            else (s, []))
         else if k = Key_Space then
           (s\<lparr>timer_running := False\<rparr>, [TimerStop, Emit switch_to_region])
         else if k = Key_PageDown then (page_down env now s, [])
         else if k = Key_PageUp then (page_up env now s, [])
         else if k = Key_Z then (s\<lparr>show_magnifier := \<not> show_magnifier s\<rparr>, [Update])
         else if k = Key_Up then nudge_cursor env now cursor 0 (- step) s
         else if k = Key_Down then nudge_cursor env now cursor 0 step s
         else if k = Key_Left then nudge_cursor env now cursor (- step) 0 s
         else if k = Key_Right then nudge_cursor env now cursor step 0 s
         else (s, [BaseKeyPress]))"


text \<open>Candidates as the enumerations produce them: no null handle, positive
  width.\<close>

definition cands_wf :: "(hwnd \<times> QRect) list \<Rightarrow> bool" where
  "cands_wf cs \<longleftrightarrow> (\<forall>(h, r) \<in> set cs. h \<noteq> 0 \<and> width r > 0)"

text \<open>The invariant of the picker: all candidate lists, of the top level and of
  the cache, are such lists, and no null handle is on the drill stack. It holds
  after \<open>_init_windows\<close> when \<open>EnumWindows\<close> reports no null handle, and every
  operation keeps it.\<close>

definition picker_wf :: "WindowPicker \<Rightarrow> bool" where
  "picker_wf s \<longleftrightarrow>
     cands_wf (top_windows s) \<and>
     (\<forall>p cs. child_cache s p = Some cs \<longrightarrow> cands_wf cs) \<and>
     0 \<notin> set (parent_stack s)"

text \<open>The second half of \<open>_update_highlight\<close>, after \<open>_find_window_at\<close> has
  returned \<open>h\<close> and \<open>screen_rect\<close>; \<open>update_highlight\<close> is this function applied
  to the result of \<open>find_window_at\<close>.\<close>

definition set_highlight :: "real \<Rightarrow> WindowPicker \<Rightarrow> hwnd \<Rightarrow> QRect \<Rightarrow> WindowPicker" where
  "set_highlight now s1 h screen_rect =
     (if h \<noteq> 0 \<and> width screen_rect > 0 then
           (let disp = to_display s1 screen_rect
            in if h \<noteq> current_hwnd s1 then
                 (let s2 = s1\<lparr>current_hwnd := h, wp_current_rect := screen_rect\<rparr>
                  in if first_highlight s2
                     then s2\<lparr>animator := animate_from_cursor (animator s2) (wp_current_pos s2)
                                            (QRectF_of disp) now,
                             first_highlight := False\<rparr>
                     else s2\<lparr>animator := animate_to (animator s2) (QRectF_of disp) now\<rparr>)
               else s1)
         else if h = 0 then s1\<lparr>current_hwnd := 0, wp_current_rect := QRect_null\<rparr>
         else s1)"

text \<open>A sequence of pointer moves over the picker, each with the state of the
  window system and the clock at its time.\<close>

definition run_picker_moves :: "(win_env \<times> real \<times> QPoint) list \<Rightarrow> WindowPicker \<Rightarrow> WindowPicker" where
  "run_picker_moves mvs s = fold (\<lambda>(env, now, pos) s'. wp_mouseMoveEvent env now pos s') mvs s"

text \<open>Fresh data for p: either no entry is cached, or p was enumerated after the
  count c was taken.\<close>

definition fresh_for :: "hwnd \<Rightarrow> nat \<Rightarrow> WindowPicker \<Rightarrow> bool" where
  "fresh_for p c s \<longleftrightarrow>
     c \<le> count_list (enum_log s) p \<and> (child_cache s p = None \<or> c < count_list (enum_log s) p)"


section \<open>Orchestrator (app.py, class SwiftShotApp)\<close>

text \<open>
  The part of the application that owns the overlays. \<open>self._overlay\<close> and
  \<open>self._window_picker\<close> hold the widget together with what the application
  attaches to it: the attributes \<open>_ocr_mode\<close> and \<open>_full_screenshot\<close>, and
  the values \<open>full\<close> and \<open>ocr_mode\<close> captured by the lambdas connected to its
  signals. \<open>capture_calls\<close> counts the calls of
  \<open>CaptureManager.capture_fullscreen()\<close>; the result of the n-th call is
  \<open>cap n\<close>, \<open>None\<close> for a failed capture. \<open>timers\<close> is the queue of
  \<open>QTimer.singleShot\<close> calls of the application, all with the same delay, fired
  in the order they were set. Signals are delivered from the overlay that the
  application currently holds.
\<close>

record overlay_slot =
  ov_widget :: RegionSelector
  ov_ocr_mode :: "bool option"
  ov_full_screenshot :: pixmap
  ov_bound_full :: pixmap
  ov_bound_ocr :: bool
  ov_shown :: bool

record picker_slot =
  pk_widget :: WindowPicker
  pk_full_screenshot :: pixmap
  pk_bound_full :: pixmap
  pk_shown :: bool

datatype app_action = StartWindowPicker pixmap | ShowOverlaySpanning


record SwiftShotApp =
  app_overlay :: "overlay_slot option"
  app_window_picker :: "picker_slot option"
  capture_calls :: nat
  timers :: "(nat \<times> app_action) list"
  CAPTURE_TIMER_ENABLED :: bool
  CAPTURE_TIMER_SECONDS :: int
  LAST_REGION :: "(int \<times> int \<times> int \<times> int) option"


definition capture_fullscreen :: "(nat \<Rightarrow> pixmap option) \<Rightarrow> SwiftShotApp \<Rightarrow> SwiftShotApp \<times> pixmap option" where
  "capture_fullscreen cap app =
     (app\<lparr>capture_calls := capture_calls app + 1\<rparr>, cap (capture_calls app))"


definition close_window_picker :: "SwiftShotApp \<Rightarrow> SwiftShotApp" where
  "close_window_picker app = app\<lparr>app_window_picker := None\<rparr>"


definition start_window_picker :: "win_env \<Rightarrow> SwiftShotApp \<Rightarrow> pixmap \<Rightarrow> SwiftShotApp" where
  "start_window_picker env app full_screenshot =
     (close_window_picker app)
       \<lparr>app_window_picker :=
          Some \<lparr>pk_widget = WindowPicker_init env full_screenshot,
                pk_full_screenshot = full_screenshot,
                pk_bound_full = full_screenshot,
                pk_shown = True\<rparr>\<rparr>"

definition do_window_capture :: "win_env \<Rightarrow> (nat \<Rightarrow> pixmap option) \<Rightarrow> SwiftShotApp \<Rightarrow> SwiftShotApp" where
  "do_window_capture env cap app =
     (let (app1, full) = capture_fullscreen cap app
      in case full of
           None \<Rightarrow> app1
         | Some f \<Rightarrow> start_window_picker env app1 f)"













section \<open>A desktop for examples\<close>

text \<open>Two monitors, 1920x1080 at (0,0) and 1280x1024 at (1920,0), and three
  top-level windows: window 11 is visible, titled and spans (100,200) to
  (300,400); window 12 is hidden; window 13 has no title. Window 11 has the
  visible children 21 and 22 and the hidden child 23.\<close>

definition demo_env :: win_env where
  "demo_env =
     \<lparr>screens = [QRect_xywh 0 0 1920 1080, QRect_xywh 1920 0 1280 1024],
      enum_windows = [11, 12, 13],
      is_visible = (\<lambda>h. h \<noteq> 12 \<and> h \<noteq> 23),
      title_len = (\<lambda>h. if h = 13 then 0 else 5),
      dwm_frame_bounds =
        (\<lambda>h. if h = 11 then Some \<lparr>left = 100, top = 200, right = 300, bottom = 400\<rparr>
             else if h = 21 then Some \<lparr>left = 110, top = 210, right = 150, bottom = 250\<rparr>
             else if h = 22 then Some \<lparr>left = 160, top = 210, right = 200, bottom = 250\<rparr>
             else None),
      window_rect = (\<lambda>h. None),
      child_chain = (\<lambda>h. if h = 11 then [21, 23, 22] else [])\<rparr>"


text \<open>A picker opened on that desktop with the cursor at (150,300), inside
  window 11, after \<open>_init_windows\<close> has run.\<close>

definition demo_picker :: WindowPicker where
  "demo_picker = init_windows demo_env 5 99 \<lparr>px = 150, py = 300\<rparr> (WindowPicker_init demo_env 7)"

text \<open>The picker of the example after a descend into window 11, then with the
  pointer on child 21, then after a second descend (the pointer rests on
  window 11 itself, outside its children) and the ascend that follows.
  \<open>closed_env\<close> is the desktop after window 11 has gone: both rectangle queries
  fail for it.\<close>

definition demo_drilled :: WindowPicker where
  "demo_drilled = page_down demo_env 6 demo_picker"

definition demo_on_child :: WindowPicker where
  "demo_on_child = wp_mouseMoveEvent demo_env 7 \<lparr>px = 120, py = 220\<rparr> demo_drilled"

definition demo_twice :: WindowPicker where
  "demo_twice = page_down demo_env 7 demo_drilled"

definition demo_back :: WindowPicker where
  "demo_back = page_up demo_env 8 demo_twice"

definition closed_env :: win_env where
  "closed_env = demo_env\<lparr>dwm_frame_bounds := (\<lambda>h. if h = 11 then None else dwm_frame_bounds demo_env h)\<rparr>"



section \<open>Properties of the rectangle animator\<close>

lemma quintic_ease_out_spec: "quintic_ease_out t = spec_eased t"
proof -
  have "(t - 1) * (t - 1) * (t - 1) * (t - 1) * (t - 1) = (t - 1) ^ 5"
    by (simp add: power_numeral_reduce mult.assoc)
  moreover have "(t - 1) ^ 5 = - ((1 - t) ^ 5)"
  proof -
    have "t - 1 = - (1 - t)" by simp
    then have "(t - 1) ^ 5 = (- (1 - t)) ^ 5" by simp
    also have "\<dots> = - ((1 - t) ^ 5)" by (rule power_minus_odd) simp
    finally show ?thesis .
  qed
  ultimately show ?thesis
    by (simp add: quintic_ease_out_def spec_eased_def Let_def)
qed

lemma spec_eased_one: "spec_eased 1 = 1"
  by (simp add: spec_eased_def)

lemma spec_lerp_rect_one: "spec_lerp_rect s e 1 = e"
  by (simp add: spec_lerp_rect_def)

lemma tick_active:
  assumes "active a" and "duration a > 0" and "start_time a \<le> now"
  shows "tick a now =
           Some (True,
             a\<lparr>current_rect :=
                  spec_lerp_rect (start_rect a) (end_rect a)
                    (spec_eased (spec_clamped_fraction (now - start_time a) (duration a))),
               active := spec_clamped_fraction (now - start_time a) (duration a) < 1\<rparr>)"
proof -
  let ?q = "(now - start_time a) / duration a"
  have q0: "0 \<le> ?q" using assms by simp
  have cl: "spec_clamped_fraction (now - start_time a) (duration a) = min 1 ?q"
    using q0 by (simp add: spec_clamped_fraction_def)
  show ?thesis
  proof (cases "?q \<ge> 1")
    case True
    then have m: "min 1 ?q = 1" by simp
    from True assms(2) have ge: "duration a \<le> now - start_time a"
      by (simp add: pos_le_divide_eq)
    show ?thesis
      using assms(1,2) m ge
      by (simp add: tick_def Let_def cl spec_eased_one spec_lerp_rect_one)
  next
    case False
    then have m: "min 1 ?q = ?q" and lt: "?q < 1" by simp_all
    from lt assms(2) have nge: "\<not> duration a \<le> now - start_time a"
      by (simp add: pos_divide_less_eq)
    show ?thesis
      using assms(1,2) lt nge
      by (simp add: tick_def Let_def cl m quintic_ease_out_spec spec_lerp_rect_def
          QRectF_xywh_def)
  qed
qed


lemma tick_inactive: "\<not> active a \<Longrightarrow> tick a now = Some (False, a)"
  by (simp add: tick_def)

lemma animate_to_empty:
  "isEmptyF (current_rect a) \<Longrightarrow>
     animate_to a target now = a\<lparr>current_rect := target, end_rect := target\<rparr>"
  by (simp add: animate_to_def)

lemma animate_to_same_end:
  "\<not> isEmptyF (current_rect a) \<Longrightarrow> animate_to a (end_rect a) now = a"
  by (simp add: animate_to_def)

lemma animate_to_idem:
  "animate_to (animate_to a target now) target now' = animate_to a target now"
  by (simp add: animate_to_def)

text \<open>
  Claim C3. While an animation is active (positive duration, clock not before
  the start time), each tick sets the current rectangle to the linear
  interpolation, on x, y, width and height, from the start to the end rectangle
  with the eased progress \<open>1 - (1 - t)^5\<close>, where \<open>t\<close> is elapsed/duration
  clamped to [0,1], and stays active exactly while \<open>t < 1\<close>. For the animation
  from (0,0,0,0) to (10,10,100,100) lasting 700 ms and started at any time
  \<open>t0\<close>: a tick at elapsed time 0 yields the start rectangle, a tick at any
  elapsed time of at least 700 ms yields exactly the end rectangle and
  deactivates, and a tick at 350 ms yields a rectangle strictly between start
  and end on every field.
\<close>

theorem C3_tick_interpolation:
  "(active a \<and> duration a > 0 \<and> start_time a \<le> now \<longrightarrow>
      tick a now =
        Some (True,
          a\<lparr>current_rect :=
               spec_lerp_rect (start_rect a) (end_rect a)
                 (spec_eased (spec_clamped_fraction (now - start_time a) (duration a))),
            active := spec_clamped_fraction (now - start_time a) (duration a) < 1\<rparr>))
   \<and> (let a0 = animate_from_cursor (RectAnimator_init 700) \<lparr>px = 0, py = 0\<rparr>
                  (QRectF_xywh 10 10 100 100) t0
       in start_rect a0 = QRectF_xywh 0 0 0 0
        \<and> end_rect a0 = QRectF_xywh 10 10 100 100
        \<and> duration a0 = 7 / 10
        \<and> map_option (\<lambda>(b, a'). (b, current_rect a', active a')) (tick a0 t0)
            = Some (True, QRectF_xywh 0 0 0 0, True)
        \<and> (7 / 10 \<le> d \<longrightarrow>
             map_option (\<lambda>(b, a'). (b, current_rect a', active a')) (tick a0 (t0 + d))
               = Some (True, QRectF_xywh 10 10 100 100, False))
        \<and> map_option (\<lambda>(b, a'). (b, current_rect a', active a')) (tick a0 (t0 + 7 / 20))
            = Some (True, QRectF_xywh (155 / 16) (155 / 16) (775 / 8) (775 / 8), True)
        \<and> strictly_between (QRectF_xywh 0 0 0 0)
             (QRectF_xywh (155 / 16) (155 / 16) (775 / 8) (775 / 8))
             (QRectF_xywh 10 10 100 100))"
proof -
  define a0 where "a0 = animate_from_cursor (RectAnimator_init 700) \<lparr>px = 0, py = 0\<rparr>
                  (QRectF_xywh 10 10 100 100) t0"
  have act: "active a0" and dur: "duration a0 = 7 / 10" and st: "start_time a0 = t0"
    and sr: "start_rect a0 = QRectF_xywh 0 0 0 0"
    and er: "end_rect a0 = QRectF_xywh 10 10 100 100"
    by (simp_all add: a0_def animate_from_cursor_def RectAnimator_init_def)
  have dpos: "duration a0 > 0" using dur by simp
  have gen: "\<And>u. 0 \<le> u \<Longrightarrow>
      map_option (\<lambda>(b, a'). (b, current_rect a', active a')) (tick a0 (t0 + u))
       = Some (True,
           spec_lerp_rect (QRectF_xywh 0 0 0 0) (QRectF_xywh 10 10 100 100)
             (spec_eased (spec_clamped_fraction u (7 / 10))),
           spec_clamped_fraction u (7 / 10) < 1)"
  proof -
    fix u :: real
    assume u: "0 \<le> u"
    have le: "start_time a0 \<le> t0 + u" using u st by simp
    show "map_option (\<lambda>(b, a'). (b, current_rect a', active a')) (tick a0 (t0 + u))
       = Some (True,
           spec_lerp_rect (QRectF_xywh 0 0 0 0) (QRectF_xywh 10 10 100 100)
             (spec_eased (spec_clamped_fraction u (7 / 10))),
           spec_clamped_fraction u (7 / 10) < 1)"
      by (simp add: tick_active [OF act dpos le] st dur sr er)
  qed
  have p0: "map_option (\<lambda>(b, a'). (b, current_rect a', active a')) (tick a0 t0)
            = Some (True, QRectF_xywh 0 0 0 0, True)"
    using gen [of 0]
    by (simp add: spec_clamped_fraction_def spec_eased_def spec_lerp_rect_def QRectF_xywh_def)
  have p1: "7 / 10 \<le> d \<Longrightarrow>
       map_option (\<lambda>(b, a'). (b, current_rect a', active a')) (tick a0 (t0 + d))
               = Some (True, QRectF_xywh 10 10 100 100, False)"
  proof -
    assume d: "7 / 10 \<le> d"
    then have "1 \<le> d / (7 / 10)" by simp
    then have c: "spec_clamped_fraction d (7 / 10) = 1"
      unfolding spec_clamped_fraction_def by (simp add: min_def max_def)
    from d have "0 \<le> d" by simp
    from gen [OF this] show ?thesis
      by (simp add: c spec_eased_one spec_lerp_rect_one)
  qed
  have c2: "spec_clamped_fraction (7 / 20) (7 / 10) = 1 / 2"
    by (simp add: spec_clamped_fraction_def)
  have e2: "spec_eased (1 / 2) = 31 / 32"
    by (simp add: spec_eased_def power_numeral_reduce)
  have p2: "map_option (\<lambda>(b, a'). (b, current_rect a', active a')) (tick a0 (t0 + 7 / 20))
            = Some (True, QRectF_xywh (155 / 16) (155 / 16) (775 / 8) (775 / 8), True)"
    using gen [of "7 / 20"]
    by (simp add: c2 e2 spec_lerp_rect_def QRectF_xywh_def)
  have p3: "strictly_between (QRectF_xywh 0 0 0 0)
             (QRectF_xywh (155 / 16) (155 / 16) (775 / 8) (775 / 8))
             (QRectF_xywh 10 10 100 100)"
    by (simp add: strictly_between_def QRectF_xywh_def)
  have g: "active a \<and> duration a > 0 \<and> start_time a \<le> now \<longrightarrow>
      tick a now =
        Some (True,
          a\<lparr>current_rect :=
               spec_lerp_rect (start_rect a) (end_rect a)
                 (spec_eased (spec_clamped_fraction (now - start_time a) (duration a))),
            active := spec_clamped_fraction (now - start_time a) (duration a) < 1\<rparr>)"
    using tick_active by blast
  show ?thesis
    unfolding Let_def a0_def [symmetric]
    using g sr er dur p0 p1 p2 p3 by blast
qed

theorem C3_tick_interpolation_witness:
  "(let a1 = animate_from_cursor (RectAnimator_init 700) \<lparr>px = 3, py = 4\<rparr>
               (QRectF_xywh 10 10 100 100) 2
    in active a1 \<and> duration a1 > 0 \<and> start_time a1 \<le> 2 + 7 / 20
     \<and> map_option (\<lambda>(b, a'). (b, current_rect a', active a')) (tick a1 (2 + 7 / 20))
         = Some (True, QRectF_xywh (313 / 32) (157 / 16) (775 / 8) (775 / 8), True))
   \<and> (let a0 = animate_from_cursor (RectAnimator_init 700) \<lparr>px = 0, py = 0\<rparr>
                  (QRectF_xywh 10 10 100 100) 5
       in (7::real) / 10 \<le> 1
        \<and> map_option (\<lambda>(b, a'). (b, current_rect a', active a')) (tick a0 (5 + 1))
             = Some (True, QRectF_xywh 10 10 100 100, False))"
proof -
  define a1 where "a1 = animate_from_cursor (RectAnimator_init 700) \<lparr>px = 3, py = 4\<rparr>
               (QRectF_xywh 10 10 100 100) 2"
  have h: "active a1 \<and> duration a1 > 0 \<and> start_time a1 \<le> 2 + 7 / 20"
    by (simp add: a1_def animate_from_cursor_def RectAnimator_init_def)
  have c: "spec_clamped_fraction (47 / 20 - start_time a1) (duration a1) = 1 / 2"
    by (simp add: a1_def animate_from_cursor_def RectAnimator_init_def spec_clamped_fraction_def)
  have e2: "spec_eased (1 / 2) = 31 / 32"
    by (simp add: spec_eased_def power_numeral_reduce)
  note T = C3_tick_interpolation [of a1 "2 + 7 / 20" 5 1]
  from T h have t1: "tick a1 (2 + 7 / 20) =
        Some (True,
          a1\<lparr>current_rect :=
               spec_lerp_rect (start_rect a1) (end_rect a1) (31 / 32),
            active := True\<rparr>)"
    by (simp add: c e2)
  have r1: "spec_lerp_rect (start_rect a1) (end_rect a1) (31 / 32)
       = QRectF_xywh (313 / 32) (157 / 16) (775 / 8) (775 / 8)"
    by (simp add: a1_def animate_from_cursor_def RectAnimator_init_def spec_lerp_rect_def
        QRectF_xywh_def)
  from T have t2: "map_option (\<lambda>(b, a'). (b, current_rect a', active a'))
        (tick (animate_from_cursor (RectAnimator_init 700) \<lparr>px = 0, py = 0\<rparr>
                  (QRectF_xywh 10 10 100 100) 5) (5 + 1))
             = Some (True, QRectF_xywh 10 10 100 100, False)"
    by (simp add: Let_def)
  show ?thesis
    unfolding Let_def a1_def [symmetric]
    using h t1 r1 t2 by simp
qed

text \<open>
  Claim C10, as amended. When the current rectangle is empty (as it is before
  any animation has run), \<open>animate_to\<close> sets the end and the current rectangle
  to the target and changes nothing else: the start rectangle, the start time
  and the active flag keep their values, so an animator that was never
  activated stays inactive and its next tick moves nothing. When the current
  rectangle is not empty and the target equals the end rectangle, the whole
  animator state is unchanged. Retargeting twice to the same rectangle is the
  same as retargeting once.
\<close>

theorem C10_animate_to_retarget:
  "(isEmptyF (current_rect a) \<longrightarrow>
      end_rect (animate_to a target now) = target
    \<and> current_rect (animate_to a target now) = target
    \<and> start_rect (animate_to a target now) = start_rect a
    \<and> start_time (animate_to a target now) = start_time a
    \<and> duration (animate_to a target now) = duration a
    \<and> active (animate_to a target now) = active a)
   \<and> \<not> active (animate_to (RectAnimator_init ms) target now)
   \<and> tick (animate_to (RectAnimator_init ms) target now) now'
        = Some (False, animate_to (RectAnimator_init ms) target now)
   \<and> (\<not> isEmptyF (current_rect b) \<and> target' = end_rect b \<longrightarrow>
        animate_to b target' now = b)
   \<and> animate_to (animate_to a target now) target now' = animate_to a target now"
proof -
  have i: "\<not> active (animate_to (RectAnimator_init ms) target now)"
    by (simp add: animate_to_def RectAnimator_init_def isEmptyF_def QRectF_null_def)
  show ?thesis
    using i tick_inactive [OF i] animate_to_same_end [of b now] animate_to_idem [of a target now now']
    by (auto simp add: animate_to_empty)
qed

theorem C10_animate_to_retarget_witness:
  "isEmptyF (current_rect (RectAnimator_init 700))
   \<and> animate_to (RectAnimator_init 700) (QRectF_xywh 10 10 100 100) 3
       = \<lparr>duration = 7 / 10, start_rect = QRectF_null,
          end_rect = QRectF_xywh 10 10 100 100,
          current_rect = QRectF_xywh 10 10 100 100, start_time = 0, active = False\<rparr>
   \<and> \<not> isEmptyF (current_rect (animate_to (RectAnimator_init 700) (QRectF_xywh 10 10 100 100) 3))
   \<and> QRectF_xywh 10 10 100 100
        = end_rect (animate_to (RectAnimator_init 700) (QRectF_xywh 10 10 100 100) 3)
   \<and> animate_to (animate_to (RectAnimator_init 700) (QRectF_xywh 10 10 100 100) 3)
        (QRectF_xywh 10 10 100 100) 4
       = animate_to (RectAnimator_init 700) (QRectF_xywh 10 10 100 100) 3"
proof -
  let ?a = "RectAnimator_init 700"
  let ?t = "QRectF_xywh 10 10 100 100"
  have e: "isEmptyF (current_rect ?a)"
    by (simp add: RectAnimator_init_def isEmptyF_def QRectF_null_def)
  note T = C10_animate_to_retarget [of ?a ?t 3 700 4 "animate_to ?a ?t 3" ?t]
  from T e have f: "end_rect (animate_to ?a ?t 3) = ?t" "current_rect (animate_to ?a ?t 3) = ?t"
    "start_rect (animate_to ?a ?t 3) = start_rect ?a"
    "start_time (animate_to ?a ?t 3) = start_time ?a"
    "duration (animate_to ?a ?t 3) = duration ?a"
    "active (animate_to ?a ?t 3) = active ?a"
    by simp_all
  have ne: "\<not> isEmptyF (current_rect (animate_to ?a ?t 3))"
    using f(2) by (simp add: isEmptyF_def QRectF_xywh_def)
  from T ne f(1) have same: "animate_to (animate_to ?a ?t 3) ?t 4 = animate_to ?a ?t 3"
    by simp
  have v: "animate_to ?a ?t 3
       = \<lparr>duration = 7 / 10, start_rect = QRectF_null, end_rect = ?t,
          current_rect = ?t, start_time = 0, active = False\<rparr>"
    using f by (cases "animate_to ?a ?t 3") (simp add: RectAnimator_init_def)
  show ?thesis using e v ne f(1) same by simp
qed

text \<open>
  The start rectangle is not set by the first retarget: on a new animator it is
  still \<open>QRectF()\<close> after \<open>animate_to\<close>, and differs from the target.
\<close>

theorem C10_start_not_initialised:
  "isEmptyF (current_rect (RectAnimator_init 700))
   \<and> start_rect (animate_to (RectAnimator_init 700) (QRectF_xywh 10 10 100 100) 3)
       = QRectF_xywh 0 0 0 0
   \<and> start_rect (animate_to (RectAnimator_init 700) (QRectF_xywh 10 10 100 100) 3)
       \<noteq> QRectF_xywh 10 10 100 100"
  by (simp add: animate_to_def RectAnimator_init_def isEmptyF_def QRectF_null_def
      QRectF_xywh_def)



section \<open>Properties of the region selector\<close>

lemma demo_geo: "virtual_geometry demo_env = QRect_xywh 0 0 3200 1080"
  by (simp add: virtual_geometry_def demo_env_def united_def isNull_def QRect_xywh_def Let_def)


lemma demo_init: "RegionSelector_init demo_env shot m =
  \<lparr>screenshot = shot, mode = m, selecting = False,
        start_pos = \<lparr>px = 0, py = 0\<rparr>, end_pos = \<lparr>px = 0, py = 0\<rparr>,
        current_pos = \<lparr>px = 0, py = 0\<rparr>,
        freehand_points = [],
        snap_enabled = True, snap_edges_h = [200,400], snap_edges_v = [100,300],
        snapped_x = None, snapped_y = None,
        current_color = (0, 0, 0),
        desktop_geo = QRect_xywh 0 0 3200 1080\<rparr>"
  unfolding RegionSelector_init_def demo_geo
  by (simp add: detect_snap_edges_def snap_callback_def demo_env_def query_rect_def sorted_of_set_def rect_x_def rect_y_def QRect_xywh_def Let_def)


lemma snap_scan_query: "snap_scan c es = spec_query es c"
  by (induction es) (simp_all add: spec_query_def SNAP_DISTANCE_def)

lemma find_sorted_least:
  "sorted es \<Longrightarrow> find P es = Some e \<Longrightarrow> e' \<in> set es \<Longrightarrow> P e' \<Longrightarrow> e \<le> (e'::int)"
  by (induction es) (auto split: if_splits)

lemma snap_point_enabled:
  "snap_enabled s \<Longrightarrow>
     snap_point s p =
       (s\<lparr>snapped_x := spec_query (snap_edges_v s) (px p),
          snapped_y := spec_query (snap_edges_h s) (py p)\<rparr>,
        \<lparr>px = (case spec_query (snap_edges_v s) (px p) of Some e \<Rightarrow> e | None \<Rightarrow> px p),
         py = (case spec_query (snap_edges_h s) (py p) of Some e \<Rightarrow> e | None \<Rightarrow> py p)\<rparr>)"
  by (simp add: snap_point_def Let_def snap_scan_query)

lemma spec_query_Some:
  "spec_query axis c = Some e \<longleftrightarrow>
     (\<exists>i<length axis. axis ! i = e \<and> \<bar>c - e\<bar> \<le> 8 \<and> (\<forall>j<i. \<bar>c - axis ! j\<bar> > 8))"
  unfolding spec_query_def find_Some_iff by (auto simp: not_le)

lemma spec_query_None:
  "spec_query axis c = None \<longleftrightarrow> (\<forall>e\<in>set axis. \<bar>c - e\<bar> > 8)"
  unfolding spec_query_def find_None_iff by (auto simp: not_le)

lemma init_edges_sorted:
  "sorted (snap_edges_v (RegionSelector_init env shot m)) \<and>
   sorted (snap_edges_h (RegionSelector_init env shot m)) \<and>
   distinct (snap_edges_v (RegionSelector_init env shot m)) \<and>
   distinct (snap_edges_h (RegionSelector_init env shot m))"
  by (simp add: RegionSelector_init_def detect_snap_edges_def Let_def sorted_of_set_def)

text \<open>
  Claim C5. While snapping is enabled, \<open>_snap_point\<close> returns on each axis the
  first entry of that axis's snap list within 8 pixels of the coordinate, and
  the coordinate itself when no entry is within 8 pixels; the X result depends
  only on the X coordinate and the vertical edges, the Y result only on the Y
  coordinate and the horizontal edges. "First" is the entry of least index
  within tolerance; the lists built at construction are sorted, and in a
  sorted list the first entry within tolerance is the least one.
\<close>

theorem C5_snap_point:
  "(snap_enabled s \<longrightarrow>
      snap_point s p =
        (s\<lparr>snapped_x := spec_query (snap_edges_v s) (px p),
           snapped_y := spec_query (snap_edges_h s) (py p)\<rparr>,
         \<lparr>px = (case spec_query (snap_edges_v s) (px p) of Some e \<Rightarrow> e | None \<Rightarrow> px p),
          py = (case spec_query (snap_edges_h s) (py p) of Some e \<Rightarrow> e | None \<Rightarrow> py p)\<rparr>))
   \<and> (spec_query axis c = Some e \<longleftrightarrow>
        (\<exists>i<length axis. axis ! i = e \<and> \<bar>c - e\<bar> \<le> 8 \<and> (\<forall>j<i. \<bar>c - axis ! j\<bar> > 8)))
   \<and> (spec_query axis c = None \<longleftrightarrow> (\<forall>e'\<in>set axis. \<bar>c - e'\<bar> > 8))
   \<and> (sorted axis \<and> spec_query axis c = Some e \<longrightarrow>
        (\<forall>e'\<in>set axis. \<bar>c - e'\<bar> \<le> 8 \<longrightarrow> e \<le> e'))
   \<and> sorted (snap_edges_v (RegionSelector_init env shot m))
   \<and> sorted (snap_edges_h (RegionSelector_init env shot m))"
proof -
  have least: "sorted axis \<and> spec_query axis c = Some e \<longrightarrow>
        (\<forall>e'\<in>set axis. \<bar>c - e'\<bar> \<le> 8 \<longrightarrow> e \<le> e')"
    unfolding spec_query_def using find_sorted_least [of axis "\<lambda>e. \<bar>c - e\<bar> \<le> 8" e] by blast
  show ?thesis
    using snap_point_enabled [of s p] spec_query_Some [of axis c e] spec_query_None [of axis c]
      least init_edges_sorted [of env shot m]
    by blast
qed

theorem C5_snap_point_witness:
  "(let s0 = RegionSelector_init demo_env 0 MODE_RECTANGLE
    in snap_enabled s0 \<and> snap_edges_v s0 = [100, 300] \<and> snap_edges_h s0 = [200, 400]
     \<and> sorted (snap_edges_v s0)
     \<and> spec_query (snap_edges_v s0) 98 = Some 100
     \<and> snd (snap_point s0 \<lparr>px = 98, py = 50\<rparr>) = \<lparr>px = 100, py = 50\<rparr>
     \<and> snd (snap_point s0 \<lparr>px = 50, py = 205\<rparr>) = \<lparr>px = 50, py = 200\<rparr>
     \<and> snd (snap_point s0 \<lparr>px = 98, py = 205\<rparr>) = \<lparr>px = 100, py = 200\<rparr>
     \<and> snd (snap_point s0 \<lparr>px = 50, py = 50\<rparr>) = \<lparr>px = 50, py = 50\<rparr>
     \<and> (\<forall>e'\<in>set (snap_edges_v s0). \<bar>98 - e'\<bar> \<le> 8 \<longrightarrow> 100 \<le> e'))"
proof -
  define s0 where "s0 = RegionSelector_init demo_env 0 MODE_RECTANGLE"
  have en: "snap_enabled s0" and v: "snap_edges_v s0 = [100, 300]"
    and h: "snap_edges_h s0 = [200, 400]"
    by (simp_all add: s0_def demo_init)
  have q: "spec_query (snap_edges_v s0) 98 = Some 100"
    by (simp add: v spec_query_def)
  have srt: "sorted (snap_edges_v s0)"
    using C5_snap_point [of s0 "\<lparr>px = 98, py = 50\<rparr>" "[]" 0 0 demo_env 0 MODE_RECTANGLE]
    by (simp add: s0_def)
  have a: "snd (snap_point s0 \<lparr>px = 98, py = 50\<rparr>) = \<lparr>px = 100, py = 50\<rparr>"
    using C5_snap_point [of s0 "\<lparr>px = 98, py = 50\<rparr>" "[]" 0 0 demo_env 0 MODE_RECTANGLE] en
    by (simp add: v h spec_query_def)
  have b: "snd (snap_point s0 \<lparr>px = 50, py = 205\<rparr>) = \<lparr>px = 50, py = 200\<rparr>"
    using C5_snap_point [of s0 "\<lparr>px = 50, py = 205\<rparr>" "[]" 0 0 demo_env 0 MODE_RECTANGLE] en
    by (simp add: v h spec_query_def)
  have c: "snd (snap_point s0 \<lparr>px = 98, py = 205\<rparr>) = \<lparr>px = 100, py = 200\<rparr>"
    using C5_snap_point [of s0 "\<lparr>px = 98, py = 205\<rparr>" "[]" 0 0 demo_env 0 MODE_RECTANGLE] en
    by (simp add: v h spec_query_def)
  have d: "snd (snap_point s0 \<lparr>px = 50, py = 50\<rparr>) = \<lparr>px = 50, py = 50\<rparr>"
    using C5_snap_point [of s0 "\<lparr>px = 50, py = 50\<rparr>" "[]" 0 0 demo_env 0 MODE_RECTANGLE] en
    by (simp add: v h spec_query_def)
  have l: "\<forall>e'\<in>set (snap_edges_v s0). \<bar>98 - e'\<bar> \<le> 8 \<longrightarrow> 100 \<le> e'"
    using C5_snap_point [of s0 "\<lparr>px = 98, py = 50\<rparr>" "snap_edges_v s0" 98 100 demo_env 0 MODE_RECTANGLE]
      srt q by blast
  show ?thesis
    unfolding Let_def s0_def [symmetric]
    using en v h srt q a b c d l by blast
qed

lemma snap_point_fst:
  "fst (snap_point s p) = s \<or>
   fst (snap_point s p) = s\<lparr>snapped_x := snap_scan (px p) (snap_edges_v s),
                             snapped_y := snap_scan (py p) (snap_edges_h s)\<rparr>"
  by (simp add: snap_point_def Let_def)

lemma snap_point_keeps:
  "mode (fst (snap_point s p)) = mode s"
  "selecting (fst (snap_point s p)) = selecting s"
  "start_pos (fst (snap_point s p)) = start_pos s"
  "end_pos (fst (snap_point s p)) = end_pos s"
  "snap_enabled (fst (snap_point s p)) = snap_enabled s"
  "snap_edges_h (fst (snap_point s p)) = snap_edges_h s"
  "snap_edges_v (fst (snap_point s p)) = snap_edges_v s"
  "freehand_points (fst (snap_point s p)) = freehand_points s"
  by (simp_all add: snap_point_def Let_def)

lemma snapped_cong:
  "snap_enabled s' = snap_enabled s \<Longrightarrow> snap_edges_h s' = snap_edges_h s \<Longrightarrow>
   snap_edges_v s' = snap_edges_v s \<Longrightarrow> snapped s' p = snapped s p"
  by (simp add: snapped_def snap_point_def Let_def)

lemma press_rect:
  assumes "mode s = MODE_RECTANGLE"
  shows "same_snap (fst (mousePressEvent s LeftButton p)) s"
    and "selecting (fst (mousePressEvent s LeftButton p))"
    and "start_pos (fst (mousePressEvent s LeftButton p)) = snapped s p"
    and "end_pos (fst (mousePressEvent s LeftButton p)) = snapped s p"
  using assms
  by (simp_all add: mousePressEvent_def Let_def split_beta same_snap_def snap_point_keeps
      snapped_def snap_point_def MODE_RECTANGLE_def MODE_FREEHAND_def)

lemma move_rect:
  assumes "mode s = MODE_RECTANGLE" "selecting s"
  shows "same_snap (fst (mouseMoveEvent s m)) s"
    and "selecting (fst (mouseMoveEvent s m))"
    and "start_pos (fst (mouseMoveEvent s m)) = start_pos s"
    and "end_pos (fst (mouseMoveEvent s m)) = snapped s m"
  using assms
  by (simp_all add: mouseMoveEvent_def Let_def split_beta same_snap_def snap_point_keeps
      snapped_def snap_point_def MODE_RECTANGLE_def MODE_FREEHAND_def)

lemma run_moves_rect:
  assumes "mode s = MODE_RECTANGLE" "selecting s"
  shows "same_snap (run_moves s ms) s \<and> selecting (run_moves s ms) \<and>
         start_pos (run_moves s ms) = start_pos s"
  using assms
proof (induction ms arbitrary: s)
  case Nil
  then show ?case by (simp add: run_moves_def same_snap_def)
next
  case (Cons m ms)
  let ?s1 = "fst (mouseMoveEvent s m)"
  have a: "same_snap ?s1 s" "selecting ?s1" "start_pos ?s1 = start_pos s"
    using move_rect [OF Cons.prems] by simp_all
  then have m1: "mode ?s1 = MODE_RECTANGLE" using Cons.prems by (simp add: same_snap_def)
  from Cons.IH [OF m1 a(2)] a show ?case
    by (simp add: run_moves_def same_snap_def)
qed

lemma release_rect:
  assumes "mode s = MODE_RECTANGLE" "selecting s"
  shows "snd (mouseReleaseEvent s LeftButton q) =
     (let selection = normalized (QRect_pts (start_pos s) (snapped s q))
      in if width selection > 2 \<and> height selection > 2
         then [Hide, SingleShot 50 (region_selected selection)]
         else [Hide, SingleShot 50 cancelled])"
  using assms
  by (simp add: mouseReleaseEvent_def Let_def split_beta snap_point_keeps
      snapped_def snap_point_def MODE_RECTANGLE_def MODE_FREEHAND_def)

lemma drag_rect:
  assumes "mode s = MODE_RECTANGLE"
  shows "snd (drag s p ms q) =
     (let selection = normalized (QRect_pts (snapped s p) (snapped s q))
      in if width selection > 2 \<and> height selection > 2
         then [Hide, SingleShot 50 (region_selected selection)]
         else [Hide, SingleShot 50 cancelled])"
proof -
  let ?s1 = "fst (mousePressEvent s LeftButton p)"
  let ?s2 = "run_moves ?s1 ms"
  have p1: "same_snap ?s1 s" "selecting ?s1" "start_pos ?s1 = snapped s p"
    using press_rect [OF assms] by simp_all
  then have m1: "mode ?s1 = MODE_RECTANGLE" using assms by (simp add: same_snap_def)
  have p2: "same_snap ?s2 ?s1" "selecting ?s2" "start_pos ?s2 = start_pos ?s1"
    using run_moves_rect [OF m1 p1(2)] by simp_all
  then have m2: "mode ?s2 = MODE_RECTANGLE" using m1 by (simp add: same_snap_def)
  have sn: "snapped ?s2 q = snapped s q"
    using p1(1) p2(1) by (intro snapped_cong) (simp_all add: same_snap_def)
  show ?thesis
    unfolding drag_def release_rect [OF m2 p2(2)] sn p2(3) p1(3) ..
qed



lemma snapped_disabled: "\<not> snap_enabled s \<Longrightarrow> snapped s p = p"
  by (simp add: snapped_def snap_point_def)

lemma snapped_no_edge:
  "spec_query (snap_edges_v s) (px p) = None \<Longrightarrow> spec_query (snap_edges_h s) (py p) = None \<Longrightarrow>
   snapped s p = p"
  by (simp add: snapped_def snap_point_def Let_def snap_scan_query)







lemma run_moves_snoc: "run_moves s (ms @ [m]) = fst (mouseMoveEvent (run_moves s ms) m)"
  by (simp add: run_moves_def)

lemma release_rect_state:
  assumes "mode s = MODE_RECTANGLE" "selecting s"
  shows "start_pos (fst (mouseReleaseEvent s LeftButton q)) = start_pos s"
    and "end_pos (fst (mouseReleaseEvent s LeftButton q)) = snapped s q"
    and "\<not> selecting (fst (mouseReleaseEvent s LeftButton q))"
  using assms
  by (simp_all add: mouseReleaseEvent_def Let_def split_beta snap_point_keeps
      snapped_def snap_point_def MODE_RECTANGLE_def MODE_FREEHAND_def)

lemma drag_rect_state:
  assumes m: "mode s = MODE_RECTANGLE"
  shows "start_pos (run_moves (fst (mousePressEvent s LeftButton p)) ms) = snapped s p"
    and "end_pos (run_moves (fst (mousePressEvent s LeftButton p)) (ms @ [mv])) = snapped s mv"
    and "start_pos (fst (drag s p ms q)) = snapped s p"
    and "end_pos (fst (drag s p ms q)) = snapped s q"
proof -
  let ?s1 = "fst (mousePressEvent s LeftButton p)"
  let ?s2 = "run_moves ?s1 ms"
  have p1: "same_snap ?s1 s" "selecting ?s1" "start_pos ?s1 = snapped s p"
    using press_rect [OF m] by simp_all
  then have m1: "mode ?s1 = MODE_RECTANGLE" using m by (simp add: same_snap_def)
  have p2: "same_snap ?s2 ?s1" "selecting ?s2" "start_pos ?s2 = start_pos ?s1"
    using run_moves_rect [OF m1 p1(2)] by simp_all
  then have m2: "mode ?s2 = MODE_RECTANGLE" using m1 by (simp add: same_snap_def)
  have sn: "\<And>x. snapped ?s2 x = snapped s x"
    using p1(1) p2(1) by (intro snapped_cong) (simp_all add: same_snap_def)
  show "start_pos ?s2 = snapped s p" using p2(3) p1(3) by simp
  show "end_pos (run_moves ?s1 (ms @ [mv])) = snapped s mv"
    unfolding run_moves_snoc using move_rect(4) [OF m2 p2(2)] sn by simp
  show "start_pos (fst (drag s p ms q)) = snapped s p"
    unfolding drag_def using release_rect_state(1) [OF m2 p2(2)] p2(3) p1(3) by simp
  show "end_pos (fst (drag s p ms q)) = snapped s q"
    unfolding drag_def using release_rect_state(2) [OF m2 p2(2)] sn by simp
qed

lemma normalized_corner:
  "rx1 (QRect_pts a b) \<in> {rx1 (normalized (QRect_pts a b)), rx2 (normalized (QRect_pts a b))}
   \<and> ry1 (QRect_pts a b) \<in> {ry1 (normalized (QRect_pts a b)), ry2 (normalized (QRect_pts a b))}"
  by (simp add: normalized_def)

text \<open>
  Claim C4, as amended. In rectangle mode the anchor is the point that
  \<open>_snap_point\<close> returns for the button-down position: it is snapped once, at
  button-down. Pointer moves leave the anchor unchanged and set the moving
  endpoint to the snapped pointer position; the release does the same for the
  release position. The emitted selection is the normalized rectangle of the
  snapped anchor and the snapped release point, so the snapped anchor is one
  of its corners. The anchor equals the raw button-down position when snapping
  is disabled or no edge is within tolerance of that position on either axis.
\<close>

theorem C4_anchor_snapping:
  "mode s = MODE_RECTANGLE \<longrightarrow>
     (let s1 = fst (mousePressEvent s LeftButton p)
      in start_pos s1 = snapped s p
       \<and> start_pos (run_moves s1 ms) = snapped s p
       \<and> end_pos (run_moves s1 (ms @ [mv])) = snapped s mv
       \<and> start_pos (fst (drag s p ms q)) = snapped s p
       \<and> end_pos (fst (drag s p ms q)) = snapped s q
       \<and> (snd (drag s p ms q) = [Hide, SingleShot 50 (region_selected r)] \<longrightarrow>
            r = normalized (QRect_pts (snapped s p) (snapped s q))
          \<and> px (snapped s p) \<in> {rx1 r, rx2 r} \<and> py (snapped s p) \<in> {ry1 r, ry2 r})
       \<and> (\<not> snap_enabled s \<or>
            (spec_query (snap_edges_v s) (px p) = None \<and>
             spec_query (snap_edges_h s) (py p) = None) \<longrightarrow> snapped s p = p))"
proof
  assume m: "mode s = MODE_RECTANGLE"
  let ?s1 = "fst (mousePressEvent s LeftButton p)"
  have a: "start_pos ?s1 = snapped s p" using press_rect(3) [OF m] .
  note b = drag_rect_state [OF m]
  have c: "snd (drag s p ms q) = [Hide, SingleShot 50 (region_selected r)] \<longrightarrow>
            r = normalized (QRect_pts (snapped s p) (snapped s q))
          \<and> px (snapped s p) \<in> {rx1 r, rx2 r} \<and> py (snapped s p) \<in> {ry1 r, ry2 r}"
  proof
    assume e: "snd (drag s p ms q) = [Hide, SingleShot 50 (region_selected r)]"
    then have r: "r = normalized (QRect_pts (snapped s p) (snapped s q))"
      by (simp add: drag_rect [OF m] Let_def split: if_splits)
    show "r = normalized (QRect_pts (snapped s p) (snapped s q))
          \<and> px (snapped s p) \<in> {rx1 r, rx2 r} \<and> py (snapped s p) \<in> {ry1 r, ry2 r}"
      using r normalized_corner [of "snapped s p" "snapped s q"]
      by (simp add: QRect_pts_def)
  qed
  have d: "\<not> snap_enabled s \<or>
            (spec_query (snap_edges_v s) (px p) = None \<and>
             spec_query (snap_edges_h s) (py p) = None) \<longrightarrow> snapped s p = p"
    using snapped_disabled [of s p] snapped_no_edge [of s p] by blast
  show "let s1 = fst (mousePressEvent s LeftButton p)
      in start_pos s1 = snapped s p
       \<and> start_pos (run_moves s1 ms) = snapped s p
       \<and> end_pos (run_moves s1 (ms @ [mv])) = snapped s mv
       \<and> start_pos (fst (drag s p ms q)) = snapped s p
       \<and> end_pos (fst (drag s p ms q)) = snapped s q
       \<and> (snd (drag s p ms q) = [Hide, SingleShot 50 (region_selected r)] \<longrightarrow>
            r = normalized (QRect_pts (snapped s p) (snapped s q))
          \<and> px (snapped s p) \<in> {rx1 r, rx2 r} \<and> py (snapped s p) \<in> {ry1 r, ry2 r})
       \<and> (\<not> snap_enabled s \<or>
            (spec_query (snap_edges_v s) (px p) = None \<and>
             spec_query (snap_edges_h s) (py p) = None) \<longrightarrow> snapped s p = p)"
    unfolding Let_def using a b c d by blast
qed

text \<open>
  With a vertical window edge at x = 100, a button-down at (95,50) sets the
  anchor to (100,50), and the emitted selection starts at x = 100.
\<close>

theorem C4_anchor_snapped_counterexample:
  "start_pos (fst (mousePressEvent (RegionSelector_init demo_env 0 MODE_RECTANGLE)
                     LeftButton \<lparr>px = 95, py = 50\<rparr>)) = \<lparr>px = 100, py = 50\<rparr>
   \<and> snd (drag (RegionSelector_init demo_env 0 MODE_RECTANGLE)
            \<lparr>px = 95, py = 50\<rparr> [\<lparr>px = 120, py = 80\<rparr>] \<lparr>px = 250, py = 150\<rparr>)
       = [Hide, SingleShot 50 (region_selected \<lparr>rx1 = 100, ry1 = 50, rx2 = 250, ry2 = 150\<rparr>)]
   \<and> \<lparr>px = 100, py = 50\<rparr> \<noteq> \<lparr>px = 95, py = 50\<rparr>"
proof -
  define s0 where "s0 = RegionSelector_init demo_env 0 MODE_RECTANGLE"
  have m: "mode s0 = MODE_RECTANGLE" by (simp add: s0_def demo_init)
  have sn: "snapped s0 \<lparr>px = 95, py = 50\<rparr> = \<lparr>px = 100, py = 50\<rparr>"
    "snapped s0 \<lparr>px = 250, py = 150\<rparr> = \<lparr>px = 250, py = 150\<rparr>"
    by (simp_all add: s0_def demo_init snapped_def snap_point_def Let_def SNAP_DISTANCE_def)
  have a: "start_pos (fst (mousePressEvent s0 LeftButton \<lparr>px = 95, py = 50\<rparr>)) = \<lparr>px = 100, py = 50\<rparr>"
    using press_rect(3) [OF m] sn by simp
  have b: "snd (drag s0 \<lparr>px = 95, py = 50\<rparr> [\<lparr>px = 120, py = 80\<rparr>] \<lparr>px = 250, py = 150\<rparr>)
       = [Hide, SingleShot 50 (region_selected \<lparr>rx1 = 100, ry1 = 50, rx2 = 250, ry2 = 150\<rparr>)]"
    by (simp add: drag_rect [OF m] sn Let_def normalized_def QRect_pts_def width_def height_def)
  show ?thesis unfolding s0_def [symmetric] using a b by simp
qed

theorem C4_anchor_snapping_witness:
  "(let s0 = RegionSelector_init demo_env 0 MODE_RECTANGLE;
        s1 = fst (mousePressEvent s0 LeftButton \<lparr>px = 500, py = 50\<rparr>)
    in mode s0 = MODE_RECTANGLE
     \<and> spec_query (snap_edges_v s0) 500 = None \<and> spec_query (snap_edges_h s0) 50 = None
     \<and> start_pos s1 = \<lparr>px = 500, py = 50\<rparr>
     \<and> start_pos (run_moves s1 [\<lparr>px = 305, py = 80\<rparr>]) = \<lparr>px = 500, py = 50\<rparr>
     \<and> end_pos (run_moves s1 [\<lparr>px = 305, py = 80\<rparr>]) = \<lparr>px = 300, py = 80\<rparr>
     \<and> snd (drag s0 \<lparr>px = 500, py = 50\<rparr> [] \<lparr>px = 305, py = 80\<rparr>)
         = [Hide, SingleShot 50 (region_selected \<lparr>rx1 = 300, ry1 = 50, rx2 = 500, ry2 = 80\<rparr>)]
     \<and> px \<lparr>px = 500, py = 50\<rparr> \<in> {300, 500 :: int})"
proof -
  define s0 where "s0 = RegionSelector_init demo_env 0 MODE_RECTANGLE"
  define r where "r = \<lparr>rx1 = 300, ry1 = 50, rx2 = 500, ry2 = 80 :: int\<rparr>"
  have m: "mode s0 = MODE_RECTANGLE" by (simp add: s0_def demo_init)
  have q: "spec_query (snap_edges_v s0) 500 = None" "spec_query (snap_edges_h s0) 50 = None"
    by (simp_all add: s0_def demo_init spec_query_def)
  have sn: "snapped s0 \<lparr>px = 305, py = 80\<rparr> = \<lparr>px = 300, py = 80\<rparr>"
    by (simp_all add: s0_def demo_init snapped_def snap_point_def Let_def SNAP_DISTANCE_def)
  note T = C4_anchor_snapping [of s0 "\<lparr>px = 500, py = 50\<rparr>" "[]" "\<lparr>px = 305, py = 80\<rparr>"
      "\<lparr>px = 305, py = 80\<rparr>" r]
  from T m q have a: "snapped s0 \<lparr>px = 500, py = 50\<rparr> = \<lparr>px = 500, py = 50\<rparr>"
    by (simp add: Let_def)
  from T m a sn have b:
    "start_pos (fst (mousePressEvent s0 LeftButton \<lparr>px = 500, py = 50\<rparr>)) = \<lparr>px = 500, py = 50\<rparr>"
    "end_pos (run_moves (fst (mousePressEvent s0 LeftButton \<lparr>px = 500, py = 50\<rparr>))
        [\<lparr>px = 305, py = 80\<rparr>]) = \<lparr>px = 300, py = 80\<rparr>"
    by (simp_all add: Let_def)
  have c: "start_pos (run_moves (fst (mousePressEvent s0 LeftButton \<lparr>px = 500, py = 50\<rparr>))
        [\<lparr>px = 305, py = 80\<rparr>]) = \<lparr>px = 500, py = 50\<rparr>"
    using C4_anchor_snapping [of s0 "\<lparr>px = 500, py = 50\<rparr>" "[\<lparr>px = 305, py = 80\<rparr>]"
      "\<lparr>px = 305, py = 80\<rparr>" "\<lparr>px = 305, py = 80\<rparr>" r] m a
    by (simp add: Let_def)
  have d: "snd (drag s0 \<lparr>px = 500, py = 50\<rparr> [] \<lparr>px = 305, py = 80\<rparr>)
         = [Hide, SingleShot 50 (region_selected r)]"
    by (simp add: drag_rect [OF m] a sn Let_def normalized_def QRect_pts_def width_def
        height_def r_def)
  show ?thesis
    unfolding Let_def s0_def [symmetric] using m q b c d by (simp add: r_def)
qed
























section \<open>Properties of the window picker and of the orchestrator\<close>

lemma demo_rects:
  "get_win_rect demo_env 11 = QRect_xywh 100 200 200 200"
  "get_win_rect demo_env 21 = QRect_xywh 110 210 40 40"
  "get_win_rect demo_env 22 = QRect_xywh 160 210 40 40"
  "get_win_rect demo_env 12 = QRect_xywh 0 0 0 0"
  by (simp_all add: get_win_rect_def query_rect_def demo_env_def Let_def)

lemma demo_top: "fold (enum_cb demo_env 99) (enum_windows demo_env) [] = [(11, QRect_xywh 100 200 200 200)]"
proof -
  have e: "enum_windows demo_env = [11, 12, 13]" by (simp add: demo_env_def)
  have v: "is_visible demo_env 11" "\<not> is_visible demo_env 12" "is_visible demo_env 13"
    "title_len demo_env 11 = 5" "title_len demo_env 13 = 0"
    by (simp_all add: demo_env_def)
  show ?thesis
    by (simp add: e enum_cb_def v demo_rects Let_def width_def height_def QRect_xywh_def)
qed

lemma demo_picker_init:
  "WindowPicker_init demo_env shot =
     \<lparr>wp_screenshot = shot, wp_current_pos = \<lparr>px = 0, py = 0\<rparr>, top_windows = [],
      child_cache = Map.empty, parent_stack = [], current_hwnd = 0,
      wp_current_rect = QRect_null, animator = RectAnimator_init 700,
      first_highlight = True, show_magnifier = False, own_hwnd = 0,
      desktop_offset = \<lparr>px = 0, py = 0\<rparr>, wp_desktop_geo = QRect_xywh 0 0 3200 1080,
      timer_running = True, enum_log = []\<rparr>"
  by (simp add: WindowPicker_init_def demo_geo Let_def rect_x_def rect_y_def QRect_xywh_def)

lemma demo_picker_eq:
  "demo_picker =
     \<lparr>wp_screenshot = 7, wp_current_pos = \<lparr>px = 150, py = 300\<rparr>,
      top_windows = [(11, QRect_xywh 100 200 200 200)],
      child_cache = Map.empty, parent_stack = [], current_hwnd = 11,
      wp_current_rect = QRect_xywh 100 200 200 200,
      animator = animate_from_cursor (RectAnimator_init 700) \<lparr>px = 150, py = 300\<rparr>
                   (QRectF_of (QRect_xywh 100 200 200 200)) 5,
      first_highlight = False, show_magnifier = False, own_hwnd = 99,
      desktop_offset = \<lparr>px = 0, py = 0\<rparr>, wp_desktop_geo = QRect_xywh 0 0 3200 1080,
      timer_running = True, enum_log = []\<rparr>"
  unfolding demo_picker_def demo_picker_init init_windows_def
  by (simp add: demo_top Let_def update_highlight_def find_window_at_def contains_def
      to_display_def width_def height_def rect_x_def rect_y_def QRect_xywh_def)

text \<open>
  Claim C9. In the window picker every terminal transition, confirm by a
  primary click or by Return/Enter while the highlighted rectangle is not
  empty, and cancel by a right click or Escape, stops the animation timer,
  then hides the overlay, and only then schedules the emission of the
  terminal signal with a delay of 50 ms; the handler itself emits nothing.
  With an empty highlight a click or Return/Enter does nothing.
\<close>

theorem C9_teardown_before_deferred_emit:
  "(\<not> isEmpty (wp_current_rect s) \<longrightarrow>
      hides_then_defers (snd (wp_mousePressEvent s LeftButton))
        (element_selected (to_display s (wp_current_rect s)))
    \<and> \<not> timer_running (fst (wp_mousePressEvent s LeftButton))
    \<and> hides_then_defers (snd (wp_keyPressEvent env now cursor s Key_Return ctrl))
        (element_selected (to_display s (wp_current_rect s)))
    \<and> \<not> timer_running (fst (wp_keyPressEvent env now cursor s Key_Return ctrl))
    \<and> hides_then_defers (snd (wp_keyPressEvent env now cursor s Key_Enter ctrl))
        (element_selected (to_display s (wp_current_rect s)))
    \<and> \<not> timer_running (fst (wp_keyPressEvent env now cursor s Key_Enter ctrl)))
   \<and> hides_then_defers (snd (wp_mousePressEvent s RightButton)) wp_cancelled
   \<and> \<not> timer_running (fst (wp_mousePressEvent s RightButton))
   \<and> hides_then_defers (snd (wp_keyPressEvent env now cursor s Key_Escape ctrl)) wp_cancelled
   \<and> \<not> timer_running (fst (wp_keyPressEvent env now cursor s Key_Escape ctrl))
   \<and> snd (wp_mousePressEvent s RightButton) = [TimerStop, Hide, SingleShot 50 wp_cancelled]
   \<and> snd (wp_keyPressEvent env now cursor s Key_Escape ctrl)
        = [TimerStop, Hide, SingleShot 50 wp_cancelled]
   \<and> (isEmpty (wp_current_rect s) \<longrightarrow>
        wp_mousePressEvent s LeftButton = (s, [])
      \<and> wp_keyPressEvent env now cursor s Key_Return ctrl = (s, [])
      \<and> wp_keyPressEvent env now cursor s Key_Enter ctrl = (s, []))"
  by (simp add: wp_mousePressEvent_def wp_keyPressEvent_def hides_then_defers_def Let_def)

theorem C9_teardown_before_deferred_emit_witness:
  "\<not> isEmpty (wp_current_rect demo_picker)
   \<and> snd (wp_mousePressEvent demo_picker LeftButton)
       = [TimerStop, Hide, SingleShot 50 (element_selected (QRect_xywh 100 200 200 200))]
   \<and> hides_then_defers (snd (wp_mousePressEvent demo_picker LeftButton))
        (element_selected (QRect_xywh 100 200 200 200))
   \<and> hides_then_defers (snd (wp_keyPressEvent demo_env 6 \<lparr>px = 150, py = 300\<rparr> demo_picker Key_Enter False))
        (element_selected (QRect_xywh 100 200 200 200))
   \<and> \<not> hides_then_defers [Hide, TimerStop, Emit wp_cancelled] wp_cancelled
   \<and> \<not> hides_then_defers [SingleShot 50 wp_cancelled, TimerStop, Hide] wp_cancelled"
proof -
  have ne: "\<not> isEmpty (wp_current_rect demo_picker)"
    by (simp add: demo_picker_eq isEmpty_def QRect_xywh_def)
  have d: "to_display demo_picker (wp_current_rect demo_picker) = QRect_xywh 100 200 200 200"
    by (simp add: demo_picker_eq to_display_def rect_x_def rect_y_def width_def height_def
        QRect_xywh_def)
  note T = C9_teardown_before_deferred_emit [of demo_picker demo_env 6 "\<lparr>px = 150, py = 300\<rparr>" False]
  have e: "snd (wp_mousePressEvent demo_picker LeftButton)
       = [TimerStop, Hide, SingleShot 50 (element_selected (QRect_xywh 100 200 200 200))]"
    using ne by (simp add: wp_mousePressEvent_def d)
  have n: "\<not> hides_then_defers [Hide, TimerStop, Emit wp_cancelled] wp_cancelled"
    "\<not> hides_then_defers [SingleShot 50 wp_cancelled, TimerStop, Hide] wp_cancelled"
    by (simp_all add: hides_then_defers_def)
  from T ne show ?thesis using e n by (simp add: d)
qed









lemma first_containing_find:
  "first_containing cs x y = find (\<lambda>(h, r). contains r x y) cs"
  by (induction cs x y rule: first_containing.induct) simp_all

lemma first_containing_mem:
  "first_containing cs x y = Some (h, r) \<Longrightarrow> (h, r) \<in> set cs \<and> contains r x y"
  by (induction cs x y rule: first_containing.induct) (auto split: if_splits)

lemma first_containing_wf:
  "cands_wf cs \<Longrightarrow> first_containing cs x y = Some (h, r) \<Longrightarrow> h \<noteq> 0 \<and> width r > 0"
  using first_containing_mem [of cs x y h r] by (auto simp: cands_wf_def)

lemma walk_children_wf: "cands_wf (walk_children env chain)"
  unfolding cands_wf_def
  by (induction chain) (auto simp add: Let_def)

lemma enum_cached:
  "child_cache s p = Some cs \<Longrightarrow> enum_direct_children env s p = (s, cs)"
  by (simp add: enum_direct_children_def)

lemma enum_uncached:
  "child_cache s p = None \<Longrightarrow>
     enum_direct_children env s p =
       (s\<lparr>child_cache := (child_cache s)(p \<mapsto> walk_children env (child_chain env p)),
          enum_log := enum_log s @ [p]\<rparr>,
        walk_children env (child_chain env p))"
  by (simp add: enum_direct_children_def Let_def)

lemma enum_keeps:
  "parent_stack (fst (enum_direct_children env s p)) = parent_stack s"
  "top_windows (fst (enum_direct_children env s p)) = top_windows s"
  "current_hwnd (fst (enum_direct_children env s p)) = current_hwnd s"
  "wp_current_rect (fst (enum_direct_children env s p)) = wp_current_rect s"
  "wp_current_pos (fst (enum_direct_children env s p)) = wp_current_pos s"
  "desktop_offset (fst (enum_direct_children env s p)) = desktop_offset s"
  "first_highlight (fst (enum_direct_children env s p)) = first_highlight s"
  by (simp_all add: enum_direct_children_def Let_def split: option.splits)

lemma enum_wf:
  assumes "picker_wf s"
  shows "picker_wf (fst (enum_direct_children env s p))"
    and "cands_wf (snd (enum_direct_children env s p))"
  using assms walk_children_wf [of env "child_chain env p"]
  by (auto simp add: enum_direct_children_def Let_def picker_wf_def split: option.splits)

lemma find_window_at_root:
  "parent_stack s = [] \<Longrightarrow>
     find_window_at env s x y =
       (case first_containing (top_windows s) x y of
          Some (h, r) \<Rightarrow> (s, h, r) | None \<Rightarrow> (s, 0, QRect_null))"
  by (simp add: find_window_at_def)

lemma find_window_at_child:
  "parent_stack s \<noteq> [] \<Longrightarrow>
     find_window_at env s x y =
       (let e = enum_direct_children env s (last (parent_stack s))
        in case first_containing (snd e) x y of
             Some (h, r) \<Rightarrow> (fst e, h, r)
           | None \<Rightarrow> (fst e, last (parent_stack s), get_win_rect env (last (parent_stack s))))"
  by (simp add: find_window_at_def Let_def split_beta)

lemma update_highlight_alt:
  "update_highlight env now s =
     (let f = find_window_at env s (px (wp_current_pos s) + px (desktop_offset s))
                                   (py (wp_current_pos s) + py (desktop_offset s))
      in set_highlight now (fst f) (fst (snd f)) (snd (snd f)))"
  by (simp add: update_highlight_def set_highlight_def Let_def split_beta)

lemma set_highlight_keeps:
  "parent_stack (set_highlight now s h r) = parent_stack s"
  "top_windows (set_highlight now s h r) = top_windows s"
  "child_cache (set_highlight now s h r) = child_cache s"
  "enum_log (set_highlight now s h r) = enum_log s"
  "desktop_offset (set_highlight now s h r) = desktop_offset s"
  "wp_current_pos (set_highlight now s h r) = wp_current_pos s"
  by (simp_all add: set_highlight_def Let_def)

lemma set_highlight_hwnd:
  "h \<noteq> 0 \<Longrightarrow> width r > 0 \<Longrightarrow>
     current_hwnd (set_highlight now s h r) = h \<and>
     (h \<noteq> current_hwnd s \<longrightarrow> wp_current_rect (set_highlight now s h r) = r) \<and>
     (h = current_hwnd s \<longrightarrow> wp_current_rect (set_highlight now s h r) = wp_current_rect s)"
  "current_hwnd (set_highlight now s 0 r) = 0 \<and> wp_current_rect (set_highlight now s 0 r) = QRect_null"
  "h \<noteq> 0 \<Longrightarrow> \<not> width r > 0 \<Longrightarrow> set_highlight now s h r = s"
  by (simp_all add: set_highlight_def Let_def)

lemma set_highlight_wf: "picker_wf (set_highlight now s h r) = picker_wf s"
  by (simp add: picker_wf_def set_highlight_keeps)

lemma find_window_at_wf: "picker_wf s \<Longrightarrow> picker_wf (fst (find_window_at env s x y))"
  using enum_wf(1) [of s env "last (parent_stack s)"]
  by (cases "parent_stack s = []")
     (auto simp add: find_window_at_root find_window_at_child Let_def split: option.splits)

lemma update_highlight_wf: "picker_wf s \<Longrightarrow> picker_wf (update_highlight env now s)"
  by (simp add: update_highlight_alt Let_def set_highlight_wf find_window_at_wf)

lemma hit_root:
  assumes wf: "picker_wf s" and root: "parent_stack s = []"
  shows "case first_containing (top_windows s)
                (px (wp_current_pos s) + px (desktop_offset s))
                (py (wp_current_pos s) + py (desktop_offset s)) of
           None \<Rightarrow> current_hwnd (update_highlight env now s) = 0
                  \<and> wp_current_rect (update_highlight env now s) = QRect_null
         | Some (h, r) \<Rightarrow> current_hwnd (update_highlight env now s) = h
                  \<and> (h \<noteq> current_hwnd s \<longrightarrow> wp_current_rect (update_highlight env now s) = r)"
proof (cases "first_containing (top_windows s)
                (px (wp_current_pos s) + px (desktop_offset s))
                (py (wp_current_pos s) + py (desktop_offset s))")
  case None
  then show ?thesis
    by (simp add: update_highlight_alt find_window_at_root [OF root] set_highlight_hwnd(2))
next
  case (Some a)
  obtain h r where a: "a = (h, r)" by (cases a)
  from wf have "cands_wf (top_windows s)" by (simp add: picker_wf_def)
  from first_containing_wf [OF this Some [unfolded a]] have ok: "h \<noteq> 0" "width r > 0" by simp_all
  show ?thesis
    using set_highlight_hwnd(1) [OF ok, of now s]
    by (simp add: Some a update_highlight_alt find_window_at_root [OF root])
qed

lemma hit_child:
  assumes wf: "picker_wf s" and lvl: "parent_stack s \<noteq> []"
  shows "case first_containing (snd (enum_direct_children env s (last (parent_stack s))))
                (px (wp_current_pos s) + px (desktop_offset s))
                (py (wp_current_pos s) + py (desktop_offset s)) of
           Some (h, r) \<Rightarrow> current_hwnd (update_highlight env now s) = h
                  \<and> (h \<noteq> current_hwnd s \<longrightarrow> wp_current_rect (update_highlight env now s) = r)
         | None \<Rightarrow>
             (width (get_win_rect env (last (parent_stack s))) > 0 \<longrightarrow>
                current_hwnd (update_highlight env now s) = last (parent_stack s)
              \<and> (last (parent_stack s) \<noteq> current_hwnd s \<longrightarrow>
                   wp_current_rect (update_highlight env now s)
                     = get_win_rect env (last (parent_stack s))))
           \<and> (\<not> width (get_win_rect env (last (parent_stack s))) > 0 \<longrightarrow>
                current_hwnd (update_highlight env now s) = current_hwnd s
              \<and> wp_current_rect (update_highlight env now s) = wp_current_rect s)"
proof -
  let ?p = "last (parent_stack s)"
  let ?e = "enum_direct_children env s ?p"
  let ?x = "px (wp_current_pos s) + px (desktop_offset s)"
  let ?y = "py (wp_current_pos s) + py (desktop_offset s)"
  have "?p \<in> set (parent_stack s)" using lvl by (rule last_in_set)
  moreover from wf have "0 \<notin> set (parent_stack s)" by (simp add: picker_wf_def)
  ultimately have p0: "?p \<noteq> 0" by metis
  have cur: "current_hwnd (fst ?e) = current_hwnd s" "wp_current_rect (fst ?e) = wp_current_rect s"
    by (simp_all add: enum_keeps)
  show ?thesis
  proof (cases "first_containing (snd ?e) ?x ?y")
    case None
    have u: "update_highlight env now s = set_highlight now (fst ?e) ?p (get_win_rect env ?p)"
      by (simp add: update_highlight_alt find_window_at_child [OF lvl] Let_def None)
    show ?thesis
    proof (cases "width (get_win_rect env ?p) > 0")
      case True
      from set_highlight_hwnd(1) [OF p0 True, of now "fst ?e"] show ?thesis
        by (simp add: None u cur True)
    next
      case False
      from set_highlight_hwnd(3) [OF p0 False, of now "fst ?e"] show ?thesis
        by (simp add: None u cur False)
    qed
  next
    case (Some a)
    obtain h r where a: "a = (h, r)" by (cases a)
    from first_containing_wf [OF enum_wf(2) [OF wf] Some [unfolded a]]
    have ok: "h \<noteq> 0" "width r > 0" by simp_all
    have u: "update_highlight env now s = set_highlight now (fst ?e) h r"
      by (simp add: update_highlight_alt find_window_at_child [OF lvl] Let_def Some a)
    from set_highlight_hwnd(1) [OF ok, of now "fst ?e"] show ?thesis
      by (simp add: Some a u cur)
  qed
qed

lemma move_pos_wf: "picker_wf (s\<lparr>wp_current_pos := pos\<rparr>) = picker_wf s"
  by (simp add: picker_wf_def)

text \<open>
  Claim C7, as amended. In a picker that satisfies its invariant, after a
  pointer move to any position: at the root level the highlight clears when no
  top-level rectangle contains the point, and otherwise becomes the first
  top-level node, in enumeration order, whose rectangle contains it. At a
  deeper level the highlight becomes the first child of the current parent, in
  the order of the cached (or just enumerated) list, whose rectangle contains
  the point; when no child contains it, the highlight becomes the parent
  itself provided the rectangle just queried for the parent has positive
  width, and is left as it was otherwise. "First" is \<open>find\<close> on the list.
\<close>

theorem C7_hit_testing:
  "picker_wf s \<longrightarrow>
     (let sx = px pos + px (desktop_offset s);
          sy = py pos + py (desktop_offset s);
          s' = wp_mouseMoveEvent env now pos s
      in picker_wf s'
       \<and> (parent_stack s = [] \<longrightarrow>
            (case first_containing (top_windows s) sx sy of
               None \<Rightarrow> current_hwnd s' = 0 \<and> wp_current_rect s' = QRect_null
             | Some (h, r) \<Rightarrow> current_hwnd s' = h
                              \<and> (h \<noteq> current_hwnd s \<longrightarrow> wp_current_rect s' = r)))
       \<and> (parent_stack s \<noteq> [] \<longrightarrow>
            (let parent = last (parent_stack s);
                 children = snd (enum_direct_children env s parent)
             in case first_containing children sx sy of
                  Some (h, r) \<Rightarrow> current_hwnd s' = h
                                 \<and> (h \<noteq> current_hwnd s \<longrightarrow> wp_current_rect s' = r)
                | None \<Rightarrow>
                    (width (get_win_rect env parent) > 0 \<longrightarrow>
                       current_hwnd s' = parent
                     \<and> (parent \<noteq> current_hwnd s \<longrightarrow>
                          wp_current_rect s' = get_win_rect env parent))
                  \<and> (\<not> width (get_win_rect env parent) > 0 \<longrightarrow>
                       current_hwnd s' = current_hwnd s
                     \<and> wp_current_rect s' = wp_current_rect s))))
   \<and> first_containing cs x y = find (\<lambda>(h, r). contains r x y) cs"
proof -
  let ?s0 = "s\<lparr>wp_current_pos := pos\<rparr>"
  have e: "enum_direct_children env ?s0 p = 
     (fst (enum_direct_children env s p)\<lparr>wp_current_pos := pos\<rparr>, snd (enum_direct_children env s p))"
    for p
    by (simp add: enum_direct_children_def Let_def split: option.splits)
  have A: "picker_wf s \<longrightarrow> picker_wf (wp_mouseMoveEvent env now pos s)"
    using update_highlight_wf [of ?s0 env now] by (simp add: wp_mouseMoveEvent_def move_pos_wf)
  have B: "picker_wf s \<longrightarrow> parent_stack s = [] \<longrightarrow>
            (case first_containing (top_windows s) (px pos + px (desktop_offset s))
                     (py pos + py (desktop_offset s)) of
               None \<Rightarrow> current_hwnd (wp_mouseMoveEvent env now pos s) = 0
                      \<and> wp_current_rect (wp_mouseMoveEvent env now pos s) = QRect_null
             | Some (h, r) \<Rightarrow> current_hwnd (wp_mouseMoveEvent env now pos s) = h
                  \<and> (h \<noteq> current_hwnd s \<longrightarrow> wp_current_rect (wp_mouseMoveEvent env now pos s) = r))"
  proof (intro impI)
    assume wf: "picker_wf s" and root: "parent_stack s = []"
    from hit_root [of ?s0 env now] wf root show "case first_containing (top_windows s) (px pos + px (desktop_offset s))
                     (py pos + py (desktop_offset s)) of
               None \<Rightarrow> current_hwnd (wp_mouseMoveEvent env now pos s) = 0
                      \<and> wp_current_rect (wp_mouseMoveEvent env now pos s) = QRect_null
             | Some (h, r) \<Rightarrow> current_hwnd (wp_mouseMoveEvent env now pos s) = h
                  \<and> (h \<noteq> current_hwnd s \<longrightarrow> wp_current_rect (wp_mouseMoveEvent env now pos s) = r)"
      by (auto simp add: wp_mouseMoveEvent_def move_pos_wf split: option.splits)
  qed
  have C: "picker_wf s \<longrightarrow> parent_stack s \<noteq> [] \<longrightarrow>
            (let parent = last (parent_stack s);
                 children = snd (enum_direct_children env s parent)
             in case first_containing children (px pos + px (desktop_offset s))
                     (py pos + py (desktop_offset s)) of
                  Some (h, r) \<Rightarrow> current_hwnd (wp_mouseMoveEvent env now pos s) = h
                     \<and> (h \<noteq> current_hwnd s \<longrightarrow> wp_current_rect (wp_mouseMoveEvent env now pos s) = r)
                | None \<Rightarrow>
                    (width (get_win_rect env parent) > 0 \<longrightarrow>
                       current_hwnd (wp_mouseMoveEvent env now pos s) = parent
                     \<and> (parent \<noteq> current_hwnd s \<longrightarrow>
                          wp_current_rect (wp_mouseMoveEvent env now pos s) = get_win_rect env parent))
                  \<and> (\<not> width (get_win_rect env parent) > 0 \<longrightarrow>
                       current_hwnd (wp_mouseMoveEvent env now pos s) = current_hwnd s
                     \<and> wp_current_rect (wp_mouseMoveEvent env now pos s) = wp_current_rect s))"
  proof (intro impI)
    assume wf: "picker_wf s" and lvl: "parent_stack s \<noteq> []"
    from hit_child [of ?s0 env now] wf lvl
    show "let parent = last (parent_stack s);
                 children = snd (enum_direct_children env s parent)
             in case first_containing children (px pos + px (desktop_offset s))
                     (py pos + py (desktop_offset s)) of
                  Some (h, r) \<Rightarrow> current_hwnd (wp_mouseMoveEvent env now pos s) = h
                     \<and> (h \<noteq> current_hwnd s \<longrightarrow> wp_current_rect (wp_mouseMoveEvent env now pos s) = r)
                | None \<Rightarrow>
                    (width (get_win_rect env parent) > 0 \<longrightarrow>
                       current_hwnd (wp_mouseMoveEvent env now pos s) = parent
                     \<and> (parent \<noteq> current_hwnd s \<longrightarrow>
                          wp_current_rect (wp_mouseMoveEvent env now pos s) = get_win_rect env parent))
                  \<and> (\<not> width (get_win_rect env parent) > 0 \<longrightarrow>
                       current_hwnd (wp_mouseMoveEvent env now pos s) = current_hwnd s
                     \<and> wp_current_rect (wp_mouseMoveEvent env now pos s) = wp_current_rect s)"
      by (auto simp add: wp_mouseMoveEvent_def move_pos_wf e Let_def split: option.splits)
  qed
  show ?thesis
    unfolding Let_def using A B C first_containing_find [of cs x y] by (simp add: Let_def)
qed

lemma demo_walk:
  "walk_children demo_env (child_chain demo_env 11)
     = [(21, QRect_xywh 110 210 40 40), (22, QRect_xywh 160 210 40 40)]"
proof -
  have c: "child_chain demo_env 11 = [21, 23, 22]" by (simp add: demo_env_def)
  have v: "is_visible demo_env 21" "\<not> is_visible demo_env 23" "is_visible demo_env 22"
    by (simp_all add: demo_env_def)
  show ?thesis
    by (simp add: c v demo_rects Let_def width_def height_def QRect_xywh_def)
qed

lemma demo_picker_wf: "picker_wf demo_picker"
  by (simp add: demo_picker_eq picker_wf_def cands_wf_def width_def QRect_xywh_def)

lemma demo_picker_fields:
  "parent_stack demo_picker = []" "current_hwnd demo_picker = 11"
  "child_cache demo_picker = Map.empty" "enum_log demo_picker = []"
  "wp_current_pos demo_picker = \<lparr>px = 150, py = 300\<rparr>"
  "desktop_offset demo_picker = \<lparr>px = 0, py = 0\<rparr>"
  "top_windows demo_picker = [(11, QRect_xywh 100 200 200 200)]"
  by (simp_all add: demo_picker_eq)

lemma demo_drilled_eq:
  "demo_drilled =
     update_highlight demo_env 6
       (demo_picker\<lparr>child_cache := [11 \<mapsto> [(21, QRect_xywh 110 210 40 40), (22, QRect_xywh 160 210 40 40)]],
                    enum_log := [11], parent_stack := [11], current_hwnd := 0,
                    first_highlight := True\<rparr>)"
  unfolding demo_drilled_def page_down_def
  by (simp add: demo_picker_fields enum_uncached demo_walk Let_def)

lemma demo_drilled_fields:
  "parent_stack demo_drilled = [11]" "current_hwnd demo_drilled = 11"
  "child_cache demo_drilled = [11 \<mapsto> [(21, QRect_xywh 110 210 40 40), (22, QRect_xywh 160 210 40 40)]]"
  "enum_log demo_drilled = [11]"
  "wp_current_pos demo_drilled = \<lparr>px = 150, py = 300\<rparr>"
  "desktop_offset demo_drilled = \<lparr>px = 0, py = 0\<rparr>"
  "top_windows demo_drilled = [(11, QRect_xywh 100 200 200 200)]"
  "wp_current_rect demo_drilled = QRect_xywh 100 200 200 200"
  unfolding demo_drilled_eq update_highlight_alt
  by (simp_all add: find_window_at_child demo_picker_fields enum_cached Let_def contains_def
      QRect_xywh_def set_highlight_keeps set_highlight_def demo_rects width_def)

lemma demo_drilled_wf: "picker_wf demo_drilled"
  by (simp add: picker_wf_def demo_drilled_fields cands_wf_def width_def QRect_xywh_def)

lemma demo_on_child_fields:
  "parent_stack demo_on_child = [11]" "current_hwnd demo_on_child = 21"
  "child_cache demo_on_child = [11 \<mapsto> [(21, QRect_xywh 110 210 40 40), (22, QRect_xywh 160 210 40 40)]]"
  "enum_log demo_on_child = [11]"
  "wp_current_pos demo_on_child = \<lparr>px = 120, py = 220\<rparr>"
  "desktop_offset demo_on_child = \<lparr>px = 0, py = 0\<rparr>"
  "wp_current_rect demo_on_child = QRect_xywh 110 210 40 40"
  unfolding demo_on_child_def wp_mouseMoveEvent_def update_highlight_alt
  by (simp_all add: find_window_at_child demo_drilled_fields enum_cached Let_def contains_def
      QRect_xywh_def set_highlight_keeps set_highlight_def width_def)

lemma demo_on_child_wf: "picker_wf demo_on_child"
  unfolding demo_on_child_def wp_mouseMoveEvent_def
  by (intro update_highlight_wf) (simp add: move_pos_wf demo_drilled_wf)

lemma closed_rect: "get_win_rect closed_env 11 = QRect_xywh 0 0 0 0"
  by (simp add: get_win_rect_def query_rect_def closed_env_def demo_env_def Let_def)

text \<open>
  One level down in window 11 with child 21 highlighted, after window 11 has
  gone (its rectangle is queried as empty), a move to a point outside both
  cached children leaves child 21 highlighted: the highlight does not become
  the parent.
\<close>

theorem C7_parent_fallback_counterexample:
  "parent_stack demo_on_child = [11]
   \<and> current_hwnd demo_on_child = 21
   \<and> first_containing (snd (enum_direct_children closed_env demo_on_child 11)) 150 300 = None
   \<and> current_hwnd (wp_mouseMoveEvent closed_env 8 \<lparr>px = 150, py = 300\<rparr> demo_on_child) = 21
   \<and> current_hwnd (wp_mouseMoveEvent closed_env 8 \<lparr>px = 150, py = 300\<rparr> demo_on_child) \<noteq> 11"
proof -
  let ?s0 = "demo_on_child\<lparr>wp_current_pos := \<lparr>px = 150, py = 300\<rparr>\<rparr>"
  have c: "child_cache ?s0 11 = Some [(21, QRect_xywh 110 210 40 40), (22, QRect_xywh 160 210 40 40)]"
    by (simp add: demo_on_child_fields)
  have n: "first_containing (snd (enum_direct_children closed_env demo_on_child 11)) 150 300 = None"
    by (simp add: enum_cached demo_on_child_fields contains_def QRect_xywh_def)
  have n': "first_containing (snd (enum_direct_children closed_env ?s0 11)) 150 300 = None"
    by (simp add: enum_cached [OF c] contains_def QRect_xywh_def)
  have wf: "picker_wf ?s0" using demo_on_child_wf by (simp add: move_pos_wf)
  have lvl: "parent_stack ?s0 \<noteq> []" by (simp add: demo_on_child_fields)
  from hit_child [OF wf lvl, of closed_env 8]
  have "current_hwnd (update_highlight closed_env 8 ?s0) = 21"
    by (simp add: demo_on_child_fields n' closed_rect width_def QRect_xywh_def)
  then show ?thesis
    using n by (simp add: demo_on_child_fields wp_mouseMoveEvent_def)
qed

lemma update_highlight_root_cache:
  "parent_stack s = [] \<Longrightarrow>
     child_cache (update_highlight env now s) = child_cache s \<and>
     enum_log (update_highlight env now s) = enum_log s \<and>
     parent_stack (update_highlight env now s) = parent_stack s"
  by (simp add: update_highlight_alt find_window_at_root set_highlight_keeps
      split: option.splits)

lemma update_highlight_child_cache:
  "parent_stack s \<noteq> [] \<Longrightarrow>
     child_cache (update_highlight env now s)
       = child_cache (fst (enum_direct_children env s (last (parent_stack s)))) \<and>
     enum_log (update_highlight env now s)
       = enum_log (fst (enum_direct_children env s (last (parent_stack s)))) \<and>
     parent_stack (update_highlight env now s) = parent_stack s"
  by (simp add: update_highlight_alt find_window_at_child set_highlight_keeps Let_def enum_keeps
      split: option.splits)

lemma update_highlight_stack: "parent_stack (update_highlight env now s) = parent_stack s"
  using update_highlight_root_cache [of s env now] update_highlight_child_cache [of s env now]
  by (cases "parent_stack s = []") simp_all

lemma enum_fresh:
  "fresh_for p c s \<Longrightarrow> fresh_for p c (fst (enum_direct_children env s q))"
  by (cases "child_cache s q") (auto simp add: enum_uncached enum_cached fresh_for_def)

lemma enum_fresh_self:
  "fresh_for p c s \<Longrightarrow> c < count_list (enum_log (fst (enum_direct_children env s p))) p"
  by (cases "child_cache s p") (auto simp add: enum_uncached enum_cached fresh_for_def)

lemma update_highlight_fresh:
  "fresh_for p c s \<Longrightarrow> fresh_for p c (update_highlight env now s)"
proof (cases "parent_stack s = []")
  case True
  assume "fresh_for p c s"
  then show ?thesis
    using update_highlight_root_cache [OF True, of env now] by (simp add: fresh_for_def)
next
  case False
  assume f: "fresh_for p c s"
  from enum_fresh [OF f, of env "last (parent_stack s)"]
  show ?thesis
    using update_highlight_child_cache [OF False, of env now] by (simp add: fresh_for_def)
qed

lemma update_highlight_count_mono:
  "count_list (enum_log s) p \<le> count_list (enum_log (update_highlight env now s)) p"
proof (cases "parent_stack s = []")
  case True
  then show ?thesis using update_highlight_root_cache [OF True, of env now] by simp
next
  case False
  show ?thesis
    using update_highlight_child_cache [OF False, of env now]
    by (cases "child_cache s (last (parent_stack s))")
       (simp_all add: enum_uncached enum_cached)
qed

lemma move_fresh:
  "fresh_for p c s \<Longrightarrow> fresh_for p c (wp_mouseMoveEvent env now pos s)"
  unfolding wp_mouseMoveEvent_def
  by (intro update_highlight_fresh) (simp add: fresh_for_def)

lemma run_moves_fresh:
  "fresh_for p c s \<Longrightarrow> fresh_for p c (run_picker_moves mvs s)"
proof (induction mvs arbitrary: s)
  case Nil
  then show ?case by (simp add: run_picker_moves_def)
next
  case (Cons m mvs)
  obtain env now pos where m: "m = (env, now, pos)" by (cases m)
  from Cons.IH [OF move_fresh [OF Cons.prems, of env now pos]]
  show ?case by (simp add: run_picker_moves_def m)
qed

lemma page_up_stack:
  "parent_stack s \<noteq> [] \<Longrightarrow> parent_stack (page_up env now s) = butlast (parent_stack s)"
  by (simp add: page_up_def Let_def update_highlight_stack)

lemma page_up_evicts:
  assumes "parent_stack s \<noteq> []"
    and "butlast (parent_stack s) = [] \<or> last (butlast (parent_stack s)) \<noteq> last (parent_stack s)"
  shows "child_cache (page_up env now s) (last (parent_stack s)) = None"
proof -
  let ?p = "last (parent_stack s)"
  let ?s3 = "s\<lparr>parent_stack := butlast (parent_stack s),
               child_cache := (child_cache s)(?p := None),
               current_hwnd := 0, first_highlight := True\<rparr>"
  have pu: "page_up env now s = update_highlight env now ?s3"
    using assms(1) by (simp add: page_up_def Let_def)
  show ?thesis
  proof (cases "butlast (parent_stack s) = []")
    case True
    then show ?thesis
      using update_highlight_root_cache [of ?s3 env now] by (simp add: pu)
  next
    case False
    with assms(2) have ne: "last (butlast (parent_stack s)) \<noteq> ?p" by simp
    from False have lvl: "parent_stack ?s3 \<noteq> []" by simp
    show ?thesis
      using update_highlight_child_cache [OF lvl, of env now] ne
      by (cases "child_cache ?s3 (last (butlast (parent_stack s)))")
         (simp_all add: pu enum_uncached enum_cached)
  qed
qed

lemma page_up_reenumerates:
  assumes "parent_stack s \<noteq> []" "butlast (parent_stack s) \<noteq> []"
    and "last (butlast (parent_stack s)) = last (parent_stack s)"
  shows "child_cache (page_up env now s) (last (parent_stack s))
           = Some (walk_children env (child_chain env (last (parent_stack s))))
       \<and> enum_log (page_up env now s) = enum_log s @ [last (parent_stack s)]"
proof -
  let ?p = "last (parent_stack s)"
  let ?s3 = "s\<lparr>parent_stack := butlast (parent_stack s),
               child_cache := (child_cache s)(?p := None),
               current_hwnd := 0, first_highlight := True\<rparr>"
  have pu: "page_up env now s = update_highlight env now ?s3"
    using assms(1) by (simp add: page_up_def Let_def)
  from assms(2) have lvl: "parent_stack ?s3 \<noteq> []" by simp
  have c: "child_cache ?s3 ?p = None" by simp
  show ?thesis
    using update_highlight_child_cache [OF lvl, of env now] assms(3)
    by (simp add: pu enum_uncached)
qed

lemma page_up_fresh:
  assumes "parent_stack s \<noteq> []"
  shows "fresh_for (last (parent_stack s)) (count_list (enum_log s) (last (parent_stack s)))
           (page_up env now s)"
proof -
  let ?p = "last (parent_stack s)"
  let ?s3 = "s\<lparr>parent_stack := butlast (parent_stack s),
               child_cache := (child_cache s)(?p := None),
               current_hwnd := 0, first_highlight := True\<rparr>"
  have pu: "page_up env now s = update_highlight env now ?s3"
    using assms(1) by (simp add: page_up_def Let_def)
  have "fresh_for ?p (count_list (enum_log s) ?p) ?s3" by (simp add: fresh_for_def)
  from update_highlight_fresh [OF this] show ?thesis by (simp add: pu)
qed

lemma page_down_uncached:
  assumes "current_hwnd t \<noteq> 0" "child_cache t (current_hwnd t) = None"
  shows "enum_log (page_down env now t) = enum_log t @ [current_hwnd t]
       \<and> child_cache (page_down env now t) (current_hwnd t)
           = Some (walk_children env (child_chain env (current_hwnd t)))"
proof -
  let ?p = "current_hwnd t"
  let ?w = "walk_children env (child_chain env ?p)"
  let ?t1 = "t\<lparr>child_cache := (child_cache t)(?p \<mapsto> ?w), enum_log := enum_log t @ [?p]\<rparr>"
  show ?thesis
  proof (cases "?w = []")
    case True
    then show ?thesis using assms by (simp add: page_down_def enum_uncached)
  next
    case False
    let ?t2 = "?t1\<lparr>parent_stack := parent_stack t @ [?p], current_hwnd := 0,
                   first_highlight := True\<rparr>"
    have pd: "page_down env now t = update_highlight env now ?t2"
      using assms False by (simp add: page_down_def enum_uncached)
    have lvl: "parent_stack ?t2 \<noteq> []" by simp
    have l: "last (parent_stack ?t2) = ?p" by simp
    have e: "enum_direct_children env ?t2 ?p = (?t2, ?w)" by (rule enum_cached) simp
    note u = update_highlight_child_cache [OF lvl, of env now, unfolded l e fst_conv]
    show ?thesis unfolding pd using u by simp
  qed
qed

lemma page_down_cached:
  assumes "current_hwnd t \<noteq> 0" "child_cache t (current_hwnd t) = Some cs"
  shows "enum_log (page_down env now t) = enum_log t
       \<and> child_cache (page_down env now t) = child_cache t
       \<and> enum_direct_children env t (current_hwnd t) = (t, cs)
       \<and> parent_stack (page_down env now t)
           = (if cs \<noteq> [] then parent_stack t @ [current_hwnd t] else parent_stack t)"
proof -
  let ?p = "current_hwnd t"
  show ?thesis
  proof (cases "cs = []")
    case True
    then show ?thesis using assms by (simp add: page_down_def enum_cached)
  next
    case False
    let ?t2 = "t\<lparr>parent_stack := parent_stack t @ [?p], current_hwnd := 0,
                   first_highlight := True\<rparr>"
    have pd: "page_down env now t = update_highlight env now ?t2"
      using assms False by (simp add: page_down_def enum_cached)
    have lvl: "parent_stack ?t2 \<noteq> []" by simp
    have l: "last (parent_stack ?t2) = ?p" by simp
    have e: "enum_direct_children env ?t2 ?p = (?t2, cs)"
      by (rule enum_cached) (simp add: assms)
    note u = update_highlight_child_cache [OF lvl, of env now, unfolded l e fst_conv]
    have e0: "enum_direct_children env t ?p = (t, cs)" using assms(2) by (rule enum_cached)
    show ?thesis unfolding pd using u e0 False by simp
  qed
qed

lemma page_down_fresh_count:
  assumes "fresh_for p c t" "current_hwnd t = p" "p \<noteq> 0"
  shows "c < count_list (enum_log (page_down env now t)) p"
proof (cases "child_cache t p")
  case None
  with assms page_down_uncached [of t env now] show ?thesis
    by (simp add: fresh_for_def)
next
  case (Some cs)
  with assms page_down_cached [of t cs env now] show ?thesis
    by (simp add: fresh_for_def)
qed

lemma update_highlight_keeps:
  "wp_current_pos (update_highlight env now s) = wp_current_pos s"
  "desktop_offset (update_highlight env now s) = desktop_offset s"
  "top_windows (update_highlight env now s) = top_windows s"
  by (cases "parent_stack s = []";
      simp add: update_highlight_alt find_window_at_root find_window_at_child set_highlight_keeps
        Let_def enum_keeps split: option.splits)+

lemma page_down_keeps:
  "wp_current_pos (page_down env now s) = wp_current_pos s"
  "desktop_offset (page_down env now s) = desktop_offset s"
  "top_windows (page_down env now s) = top_windows s"
  by (simp_all add: page_down_def Let_def split_beta update_highlight_keeps enum_keeps)

lemma page_up_keeps:
  "wp_current_pos (page_up env now s) = wp_current_pos s"
  "desktop_offset (page_up env now s) = desktop_offset s"
  "top_windows (page_up env now s) = top_windows s"
  by (simp_all add: page_up_def Let_def update_highlight_keeps)

lemma page_down_wf: "picker_wf s \<Longrightarrow> picker_wf (page_down env now s)"
proof -
  assume wf: "picker_wf s"
  let ?e = "enum_direct_children env s (current_hwnd s)"
  have w1: "picker_wf (fst ?e)" using enum_wf(1) [OF wf] .
  have k: "current_hwnd (fst ?e) = current_hwnd s" by (simp add: enum_keeps)
  show ?thesis
  proof (cases "current_hwnd s = 0 \<or> snd ?e = []")
    case True
    then show ?thesis using wf w1 by (auto simp add: page_down_def Let_def split_beta)
  next
    case False
    then have "picker_wf (fst ?e\<lparr>parent_stack := parent_stack (fst ?e) @ [current_hwnd (fst ?e)],
                    current_hwnd := 0, first_highlight := True\<rparr>)"
      using w1 k by (simp add: picker_wf_def)
    from update_highlight_wf [OF this] False show ?thesis
      by (simp add: page_down_def Let_def split_beta)
  qed
qed

lemma page_up_wf: "picker_wf s \<Longrightarrow> picker_wf (page_up env now s)"
proof -
  assume wf: "picker_wf s"
  show ?thesis
  proof (cases "parent_stack s = []")
    case True
    then show ?thesis using wf by (simp add: page_up_def)
  next
    case False
    have "picker_wf (s\<lparr>parent_stack := butlast (parent_stack s),
               child_cache := (child_cache s)(last (parent_stack s) := None),
               current_hwnd := 0, first_highlight := True\<rparr>)"
      using wf by (auto simp add: picker_wf_def dest: in_set_butlastD)
    from update_highlight_wf [OF this] False show ?thesis
      by (simp add: page_up_def Let_def)
  qed
qed

lemma enum_cb_wf:
  "h \<noteq> 0 \<Longrightarrow> cands_wf acc \<Longrightarrow> cands_wf (enum_cb env own h acc)"
  by (auto simp add: enum_cb_def Let_def cands_wf_def)

lemma fold_enum_cb_wf:
  "0 \<notin> set hs \<Longrightarrow> cands_wf acc \<Longrightarrow> cands_wf (fold (enum_cb env own) hs acc)"
  by (induction hs arbitrary: acc) (simp_all add: enum_cb_wf)

lemma init_windows_wf:
  assumes "0 \<notin> set (enum_windows env)"
  shows "picker_wf (init_windows env now own cursor (WindowPicker_init env shot))"
proof -
  have "cands_wf (fold (enum_cb env own) (enum_windows env) [])"
    using assms by (intro fold_enum_cb_wf) (simp_all add: cands_wf_def)
  then show ?thesis
    unfolding init_windows_def Let_def
    by (intro update_highlight_wf) (simp add: picker_wf_def WindowPicker_init_def Let_def)
qed

lemma demo_twice_fields:
  "parent_stack demo_twice = [11, 11]" "enum_log demo_twice = [11]"
  "child_cache demo_twice = child_cache demo_drilled"
  "wp_current_pos demo_twice = \<lparr>px = 150, py = 300\<rparr>"
  "desktop_offset demo_twice = \<lparr>px = 0, py = 0\<rparr>"
proof -
  have c: "child_cache demo_drilled (current_hwnd demo_drilled)
     = Some [(21, QRect_xywh 110 210 40 40), (22, QRect_xywh 160 210 40 40)]"
    by (simp add: demo_drilled_fields)
  have h: "current_hwnd demo_drilled \<noteq> 0" by (simp add: demo_drilled_fields)
  from page_down_cached [OF h c, of demo_env 7]
  show "parent_stack demo_twice = [11, 11]" "enum_log demo_twice = [11]"
    "child_cache demo_twice = child_cache demo_drilled"
    by (simp_all add: demo_twice_def demo_drilled_fields)
  show "wp_current_pos demo_twice = \<lparr>px = 150, py = 300\<rparr>"
    "desktop_offset demo_twice = \<lparr>px = 0, py = 0\<rparr>"
    by (simp_all add: demo_twice_def page_down_keeps demo_drilled_fields)
qed

lemma demo_twice_wf: "picker_wf demo_twice"
  unfolding demo_twice_def using demo_drilled_wf by (rule page_down_wf)

lemma demo_back_wf: "picker_wf demo_back"
  unfolding demo_back_def using demo_twice_wf by (rule page_up_wf)

lemma demo_back_fields:
  "parent_stack demo_back = [11]" "enum_log demo_back = [11, 11]"
  "child_cache demo_back 11 = Some [(21, QRect_xywh 110 210 40 40), (22, QRect_xywh 160 210 40 40)]"
  "current_hwnd demo_back = 11"
proof -
  have ne: "parent_stack demo_twice \<noteq> []" "butlast (parent_stack demo_twice) \<noteq> []"
    "last (butlast (parent_stack demo_twice)) = last (parent_stack demo_twice)"
    by (simp_all add: demo_twice_fields)
  from page_up_reenumerates [OF ne, of demo_env 8]
  show "enum_log demo_back = [11, 11]"
    "child_cache demo_back 11 = Some [(21, QRect_xywh 110 210 40 40), (22, QRect_xywh 160 210 40 40)]"
    by (simp_all add: demo_back_def demo_twice_fields demo_walk)
  show "parent_stack demo_back = [11]"
    by (simp add: demo_back_def page_up_stack [OF ne(1)] demo_twice_fields)
  let ?s3 = "demo_twice\<lparr>parent_stack := butlast (parent_stack demo_twice),
               child_cache := (child_cache demo_twice)(last (parent_stack demo_twice) := None),
               current_hwnd := 0, first_highlight := True\<rparr>"
  have pu: "demo_back = update_highlight demo_env 8 ?s3"
    using ne(1) by (simp add: demo_back_def page_up_def Let_def)
  have wf: "picker_wf ?s3"
    using demo_twice_wf by (auto simp add: picker_wf_def demo_twice_fields)
  have lvl: "parent_stack ?s3 \<noteq> []" by (simp add: demo_twice_fields)
  have e: "enum_direct_children demo_env ?s3 11
     = (?s3\<lparr>child_cache := (child_cache ?s3)(11 \<mapsto> walk_children demo_env (child_chain demo_env 11)),
            enum_log := enum_log ?s3 @ [11]\<rparr>,
        walk_children demo_env (child_chain demo_env 11))"
    by (rule enum_uncached) (simp add: demo_twice_fields)
  have l: "last (parent_stack ?s3) = 11" by (simp add: demo_twice_fields)
  have n: "first_containing (snd (enum_direct_children demo_env ?s3 (last (parent_stack ?s3))))
             (px (wp_current_pos ?s3) + px (desktop_offset ?s3))
             (py (wp_current_pos ?s3) + py (desktop_offset ?s3)) = None"
    unfolding l e by (simp add: demo_twice_fields demo_walk contains_def QRect_xywh_def)
  have w: "width (get_win_rect demo_env (last (parent_stack ?s3))) > 0"
    unfolding l by (simp add: demo_rects width_def QRect_xywh_def)
  from hit_child [OF wf lvl, of demo_env 8, unfolded n option.case] w
  have "current_hwnd (update_highlight demo_env 8 ?s3) = last (parent_stack ?s3)" by blast
  then show "current_hwnd demo_back = 11"
    unfolding pu [symmetric] l .
qed

text \<open>
  After two descends into window 11 (the second while the pointer rests on
  window 11 itself) the stack is [11, 11]. The ascend pops one 11 and its
  hit-test enumerates window 11 again, so window 11 has a cache entry after
  the ascend, and the descend that follows enumerates nothing.
\<close>

theorem C6_descend_after_ascend_counterexample:
  "parent_stack demo_twice = [11, 11]
   \<and> demo_back = page_up demo_env 8 demo_twice
   \<and> parent_stack demo_back = [11]
   \<and> child_cache demo_back 11 \<noteq> None
   \<and> current_hwnd demo_back = 11
   \<and> enum_log (page_down demo_env 9 demo_back) = enum_log demo_back
   \<and> parent_stack (page_down demo_env 9 demo_back) = [11, 11]"
proof -
  have h: "current_hwnd demo_back \<noteq> 0" by (simp add: demo_back_fields)
  have c: "child_cache demo_back (current_hwnd demo_back)
     = Some [(21, QRect_xywh 110 210 40 40), (22, QRect_xywh 160 210 40 40)]"
    by (simp add: demo_back_fields)
  have d: "demo_back = page_up demo_env 8 demo_twice" by (rule demo_back_def)
  from page_down_cached [OF h c, of demo_env 9] d show ?thesis
    by (simp add: demo_back_fields demo_twice_fields)
qed

text \<open>
  Claim C6, as amended. Ascending pops the drill stack and evicts the popped
  parent's entry from the cache before the hit-test runs again. If the popped
  parent is not also the new top of the stack, it has no cache entry after the
  ascend; if it is, the hit-test of the ascend enumerates it at once and
  caches the new list. In both cases, whatever pointer moves follow, once a
  descend into that parent has returned, the parent has been enumerated at
  least once more than before the ascend. A descend into a highlighted window
  without a cache entry enumerates its children once through the window
  system; a descend into one with a cache entry uses the cached list and
  enumerates nothing.
\<close>

theorem C6_cache_eviction:
  "(picker_wf s \<and> parent_stack s \<noteq> [] \<longrightarrow>
      (let p = last (parent_stack s);
           rest = butlast (parent_stack s);
           s' = page_up env now s
       in parent_stack s' = rest
        \<and> (rest = [] \<or> last rest \<noteq> p \<longrightarrow> child_cache s' p = None)
        \<and> (rest \<noteq> [] \<and> last rest = p \<longrightarrow>
             child_cache s' p = Some (walk_children env (child_chain env p))
           \<and> enum_log s' = enum_log s @ [p])
        \<and> (current_hwnd (run_picker_moves mvs s') = p \<longrightarrow>
             count_list (enum_log s) p
               < count_list (enum_log (page_down env' now' (run_picker_moves mvs s'))) p)))
   \<and> (current_hwnd t \<noteq> 0 \<and> child_cache t (current_hwnd t) = None \<longrightarrow>
        enum_log (page_down env now t) = enum_log t @ [current_hwnd t]
      \<and> child_cache (page_down env now t) (current_hwnd t)
          = Some (walk_children env (child_chain env (current_hwnd t))))
   \<and> (current_hwnd t \<noteq> 0 \<and> child_cache t (current_hwnd t) = Some cs \<longrightarrow>
        enum_log (page_down env now t) = enum_log t
      \<and> child_cache (page_down env now t) = child_cache t
      \<and> enum_direct_children env t (current_hwnd t) = (t, cs))"
proof -
  have A: "picker_wf s \<and> parent_stack s \<noteq> [] \<longrightarrow>
      (let p = last (parent_stack s);
           rest = butlast (parent_stack s);
           s' = page_up env now s
       in parent_stack s' = rest
        \<and> (rest = [] \<or> last rest \<noteq> p \<longrightarrow> child_cache s' p = None)
        \<and> (rest \<noteq> [] \<and> last rest = p \<longrightarrow>
             child_cache s' p = Some (walk_children env (child_chain env p))
           \<and> enum_log s' = enum_log s @ [p])
        \<and> (current_hwnd (run_picker_moves mvs s') = p \<longrightarrow>
             count_list (enum_log s) p
               < count_list (enum_log (page_down env' now' (run_picker_moves mvs s'))) p))"
  proof
    assume h: "picker_wf s \<and> parent_stack s \<noteq> []"
    then have wf: "picker_wf s" and lvl: "parent_stack s \<noteq> []" by simp_all
    let ?p = "last (parent_stack s)"
    have "?p \<in> set (parent_stack s)" using lvl by (rule last_in_set)
    moreover from wf have "0 \<notin> set (parent_stack s)" by (simp add: picker_wf_def)
    ultimately have p0: "?p \<noteq> 0" by metis
    have a1: "parent_stack (page_up env now s) = butlast (parent_stack s)"
      using lvl by (rule page_up_stack)
    have a2: "butlast (parent_stack s) = [] \<or> last (butlast (parent_stack s)) \<noteq> ?p \<longrightarrow>
        child_cache (page_up env now s) ?p = None"
      using page_up_evicts [OF lvl] by blast
    have a3: "butlast (parent_stack s) \<noteq> [] \<and> last (butlast (parent_stack s)) = ?p \<longrightarrow>
             child_cache (page_up env now s) ?p = Some (walk_children env (child_chain env ?p))
           \<and> enum_log (page_up env now s) = enum_log s @ [?p]"
      using page_up_reenumerates [OF lvl] by blast
    have f: "fresh_for ?p (count_list (enum_log s) ?p) (run_picker_moves mvs (page_up env now s))"
      using page_up_fresh [OF lvl] by (intro run_moves_fresh)
    have a4: "current_hwnd (run_picker_moves mvs (page_up env now s)) = ?p \<longrightarrow>
             count_list (enum_log s) ?p
               < count_list (enum_log (page_down env' now'
                    (run_picker_moves mvs (page_up env now s)))) ?p"
      using page_down_fresh_count [OF f _ p0] by blast
    show "let p = last (parent_stack s);
           rest = butlast (parent_stack s);
           s' = page_up env now s
       in parent_stack s' = rest
        \<and> (rest = [] \<or> last rest \<noteq> p \<longrightarrow> child_cache s' p = None)
        \<and> (rest \<noteq> [] \<and> last rest = p \<longrightarrow>
             child_cache s' p = Some (walk_children env (child_chain env p))
           \<and> enum_log s' = enum_log s @ [p])
        \<and> (current_hwnd (run_picker_moves mvs s') = p \<longrightarrow>
             count_list (enum_log s) p
               < count_list (enum_log (page_down env' now' (run_picker_moves mvs s'))) p)"
      unfolding Let_def using a1 a2 a3 a4 by blast
  qed
  have B: "current_hwnd t \<noteq> 0 \<and> child_cache t (current_hwnd t) = None \<longrightarrow>
        enum_log (page_down env now t) = enum_log t @ [current_hwnd t]
      \<and> child_cache (page_down env now t) (current_hwnd t)
          = Some (walk_children env (child_chain env (current_hwnd t)))"
    using page_down_uncached [of t env now] by blast
  have C: "current_hwnd t \<noteq> 0 \<and> child_cache t (current_hwnd t) = Some cs \<longrightarrow>
        enum_log (page_down env now t) = enum_log t
      \<and> child_cache (page_down env now t) = child_cache t
      \<and> enum_direct_children env t (current_hwnd t) = (t, cs)"
    using page_down_cached [of t cs env now] by blast
  show ?thesis using A B C by blast
qed

lemma demo_up_fields:
  "parent_stack (page_up demo_env 8 demo_drilled) = []"
  "current_hwnd (page_up demo_env 8 demo_drilled) = 11"
proof -
  have lvl: "parent_stack demo_drilled \<noteq> []" by (simp add: demo_drilled_fields)
  show st: "parent_stack (page_up demo_env 8 demo_drilled) = []"
    by (simp add: page_up_stack [OF lvl] demo_drilled_fields)
  let ?s3 = "demo_drilled\<lparr>parent_stack := butlast (parent_stack demo_drilled),
               child_cache := (child_cache demo_drilled)(last (parent_stack demo_drilled) := None),
               current_hwnd := 0, first_highlight := True\<rparr>"
  have pu: "page_up demo_env 8 demo_drilled = update_highlight demo_env 8 ?s3"
    using lvl by (simp add: page_up_def Let_def)
  have wf: "picker_wf ?s3"
    using demo_drilled_wf by (auto simp add: picker_wf_def demo_drilled_fields)
  have root: "parent_stack ?s3 = []" by (simp add: demo_drilled_fields)
  have n: "first_containing (top_windows ?s3)
             (px (wp_current_pos ?s3) + px (desktop_offset ?s3))
             (py (wp_current_pos ?s3) + py (desktop_offset ?s3))
           = Some (11, QRect_xywh 100 200 200 200)"
    by (simp add: demo_drilled_fields contains_def QRect_xywh_def)
  from hit_root [OF wf root, of demo_env 8, unfolded n option.case prod.case]
  show "current_hwnd (page_up demo_env 8 demo_drilled) = 11"
    unfolding pu by blast
qed

theorem C6_cache_eviction_witness:
  "picker_wf demo_drilled \<and> parent_stack demo_drilled = [11]
   \<and> enum_log demo_drilled = [11]
   \<and> child_cache demo_drilled 11 \<noteq> None
   \<and> parent_stack (page_up demo_env 8 demo_drilled) = []
   \<and> child_cache (page_up demo_env 8 demo_drilled) 11 = None
   \<and> current_hwnd (run_picker_moves [] (page_up demo_env 8 demo_drilled)) = 11
   \<and> count_list (enum_log demo_drilled) 11
       < count_list (enum_log (page_down demo_env 9
                      (run_picker_moves [] (page_up demo_env 8 demo_drilled)))) 11
   \<and> current_hwnd demo_picker = 11 \<and> child_cache demo_picker 11 = None
   \<and> enum_log (page_down demo_env 6 demo_picker) = [11]
   \<and> enum_log (page_down demo_env 7 demo_drilled) = [11]
   \<and> snd (enum_direct_children demo_env demo_drilled 11)
       = [(21, QRect_xywh 110 210 40 40), (22, QRect_xywh 160 210 40 40)]"
proof -
  let ?cs = "[(21, QRect_xywh 110 210 40 40), (22, QRect_xywh 160 210 40 40)]"
  have h: "picker_wf demo_drilled \<and> parent_stack demo_drilled \<noteq> []"
    by (simp add: demo_drilled_wf demo_drilled_fields)
  have cur: "current_hwnd (run_picker_moves [] (page_up demo_env 8 demo_drilled)) = 11"
    by (simp add: run_picker_moves_def demo_up_fields)
  note T1 = C6_cache_eviction [of demo_drilled demo_env 8 "[]" demo_env 9 demo_drilled ?cs]
  from T1 h cur have a:
    "parent_stack (page_up demo_env 8 demo_drilled) = []"
    "child_cache (page_up demo_env 8 demo_drilled) 11 = None"
    "count_list (enum_log demo_drilled) 11
       < count_list (enum_log (page_down demo_env 9
                      (run_picker_moves [] (page_up demo_env 8 demo_drilled)))) 11"
    by (simp_all add: Let_def demo_drilled_fields)
  have c1: "current_hwnd demo_drilled \<noteq> 0 \<and> child_cache demo_drilled (current_hwnd demo_drilled) = Some ?cs"
    by (simp add: demo_drilled_fields)
  note T2 = C6_cache_eviction [of demo_drilled demo_env 7 "[]" demo_env 9 demo_drilled ?cs]
  from T2 c1 have b: "enum_log (page_down demo_env 7 demo_drilled) = [11]"
    "snd (enum_direct_children demo_env demo_drilled 11) = ?cs"
    by (simp_all add: demo_drilled_fields)
  have c2: "current_hwnd demo_picker \<noteq> 0 \<and> child_cache demo_picker (current_hwnd demo_picker) = None"
    by (simp add: demo_picker_fields)
  note T3 = C6_cache_eviction [of demo_drilled demo_env 6 "[]" demo_env 9 demo_picker ?cs]
  from T3 c2 have c: "enum_log (page_down demo_env 6 demo_picker) = [11]"
    by (simp add: demo_picker_fields)
  show ?thesis
    using h cur a b c by (simp add: demo_drilled_fields demo_picker_fields)
qed

theorem C7_hit_testing_witness:
  "picker_wf demo_picker \<and> parent_stack demo_picker = []
   \<and> current_hwnd (wp_mouseMoveEvent demo_env 6 \<lparr>px = 50, py = 50\<rparr> demo_picker) = 0
   \<and> wp_current_rect (wp_mouseMoveEvent demo_env 6 \<lparr>px = 50, py = 50\<rparr> demo_picker) = QRect_null
   \<and> current_hwnd (wp_mouseMoveEvent demo_env 6 \<lparr>px = 250, py = 350\<rparr> demo_picker) = 11
   \<and> picker_wf demo_on_child \<and> parent_stack demo_on_child = [11]
   \<and> current_hwnd demo_on_child = 21
   \<and> width (get_win_rect demo_env 11) > 0
   \<and> current_hwnd (wp_mouseMoveEvent demo_env 8 \<lparr>px = 150, py = 300\<rparr> demo_on_child) = 11
   \<and> wp_current_rect (wp_mouseMoveEvent demo_env 8 \<lparr>px = 150, py = 300\<rparr> demo_on_child)
       = QRect_xywh 100 200 200 200
   \<and> current_hwnd (wp_mouseMoveEvent demo_env 8 \<lparr>px = 170, py = 220\<rparr> demo_on_child) = 22
   \<and> \<not> width (get_win_rect closed_env 11) > 0
   \<and> current_hwnd (wp_mouseMoveEvent closed_env 8 \<lparr>px = 150, py = 300\<rparr> demo_on_child) = 21"
proof -
  let ?cs = "[(21, QRect_xywh 110 210 40 40), (22, QRect_xywh 160 210 40 40)]"
  have r2: "first_containing (top_windows demo_picker) (250 + 0) (350 + 0)
      = Some (11, QRect_xywh 100 200 200 200)"
    by (simp add: demo_picker_fields contains_def QRect_xywh_def)
  from C7_hit_testing [of demo_picker "\<lparr>px = 50, py = 50\<rparr>" demo_env 6 "[]" 0 0] demo_picker_wf
  have a: "current_hwnd (wp_mouseMoveEvent demo_env 6 \<lparr>px = 50, py = 50\<rparr> demo_picker) = 0"
    "wp_current_rect (wp_mouseMoveEvent demo_env 6 \<lparr>px = 50, py = 50\<rparr> demo_picker) = QRect_null"
    by (simp_all add: Let_def demo_picker_fields contains_def QRect_xywh_def)
  from C7_hit_testing [of demo_picker "\<lparr>px = 250, py = 350\<rparr>" demo_env 6 "[]" 0 0] demo_picker_wf
  have b: "current_hwnd (wp_mouseMoveEvent demo_env 6 \<lparr>px = 250, py = 350\<rparr> demo_picker) = 11"
    by (simp add: Let_def demo_picker_fields contains_def QRect_xywh_def)
  have lvl: "parent_stack demo_on_child \<noteq> []" "last (parent_stack demo_on_child) = 11"
    by (simp_all add: demo_on_child_fields)
  have e: "\<And>env. snd (enum_direct_children env demo_on_child 11) = ?cs"
    by (simp add: enum_cached demo_on_child_fields)
  have n1: "first_containing ?cs (150 + 0) (300 + 0) = None"
    by (simp add: contains_def QRect_xywh_def)
  have n2: "first_containing ?cs (170 + 0) (220 + 0) = Some (22, QRect_xywh 160 210 40 40)"
    by (simp add: contains_def QRect_xywh_def)
  have w1: "width (get_win_rect demo_env 11) > 0"
    by (simp add: demo_rects width_def QRect_xywh_def)
  have w2: "\<not> width (get_win_rect closed_env 11) > 0"
    by (simp add: closed_rect width_def QRect_xywh_def)
  from C7_hit_testing [of demo_on_child "\<lparr>px = 150, py = 300\<rparr>" demo_env 8 "[]" 0 0]
    demo_on_child_wf lvl w1
  have c: "current_hwnd (wp_mouseMoveEvent demo_env 8 \<lparr>px = 150, py = 300\<rparr> demo_on_child) = 11"
    "wp_current_rect (wp_mouseMoveEvent demo_env 8 \<lparr>px = 150, py = 300\<rparr> demo_on_child)
       = QRect_xywh 100 200 200 200"
    by (simp_all add: Let_def e demo_on_child_fields demo_rects contains_def QRect_xywh_def)
  from C7_hit_testing [of demo_on_child "\<lparr>px = 170, py = 220\<rparr>" demo_env 8 "[]" 0 0]
    demo_on_child_wf lvl
  have d: "current_hwnd (wp_mouseMoveEvent demo_env 8 \<lparr>px = 170, py = 220\<rparr> demo_on_child) = 22"
    by (simp add: Let_def e demo_on_child_fields contains_def QRect_xywh_def)
  from C7_hit_testing [of demo_on_child "\<lparr>px = 150, py = 300\<rparr>" closed_env 8 "[]" 0 0]
    demo_on_child_wf lvl w2
  have f: "current_hwnd (wp_mouseMoveEvent closed_env 8 \<lparr>px = 150, py = 300\<rparr> demo_on_child) = 21"
    by (simp add: Let_def e demo_on_child_fields contains_def QRect_xywh_def)
  show ?thesis
    using demo_picker_wf demo_on_child_wf a b c d f w1 w2
    by (simp add: demo_picker_fields demo_on_child_fields)
qed


text \<open>The remaining handlers of the picker keep the invariant.\<close>

lemma nudge_cursor_wf: "picker_wf s \<Longrightarrow> picker_wf (fst (nudge_cursor env now cursor dx dy s))"
  unfolding nudge_cursor_def Let_def fst_conv
  by (intro update_highlight_wf) (simp add: picker_wf_def)

lemma wp_mousePressEvent_wf: "picker_wf s \<Longrightarrow> picker_wf (fst (wp_mousePressEvent s button))"
  by (simp add: wp_mousePressEvent_def picker_wf_def)

lemma on_tick_wf: "picker_wf s \<Longrightarrow> on_tick now s = Some (s', effs) \<Longrightarrow> picker_wf s'"
  by (auto simp add: on_tick_def picker_wf_def split: option.splits)

lemma wp_keyPressEvent_wf:
  assumes "picker_wf s"
  shows "picker_wf (fst (wp_keyPressEvent env now cursor s k ctrl))"
proof -
  have t: "picker_wf (s\<lparr>timer_running := False\<rparr>)" "picker_wf (s\<lparr>show_magnifier := \<not> show_magnifier s\<rparr>)"
    using assms by (simp_all add: picker_wf_def)
  show ?thesis
    using assms t page_down_wf [OF assms, of env now] page_up_wf [OF assms, of env now]
      nudge_cursor_wf [OF assms, of env now cursor]
    by (simp add: wp_keyPressEvent_def Let_def)
qed

end
